theory Spec2Isabelle
  imports Complex_Main
begin

section \<open>Data model: cells, series and data frames\<close>

text \<open>
  The training script and the prediction handler work on pandas data frames built from
  the JSON rows of the \<open>toronto_housing\<close> table. A cell is a number, a text, a parsed
  date (after \<open>pd.to_datetime\<close>) or missing (\<open>None\<close>, \<open>NaN\<close> and \<open>NaT\<close> are all
  "missing" for \<open>dropna\<close>). A series carries its dtype; \<open>Number\<close> stands for the dtypes
  matched by \<open>np.number\<close> (\<open>int64\<close>, \<open>float64\<close>). JSON booleans and nested values do
  not occur in the indicator table and are not modelled.
\<close>

datatype py_error =
    KeyError string
  | ValueError string
  | TypeError
  | IndexError
  | OverflowError

datatype cell = Num rat | Str string | Date int | Null

datatype dtype = Number | Object | Datetime

record series =
  sdtype :: dtype
  svalues :: "cell list"

record dataframe =
  nrows :: nat
  columns :: "(string \<times> series) list"

definition isna :: "cell \<Rightarrow> bool" where
  "isna c = (c = Null)"

definition wf_frame :: "dataframe \<Rightarrow> bool" where
  \<comment> \<open>pandas keeps every column as long as the index, under distinct names\<close>
  "wf_frame df =
     (list_all (\<lambda>p. length (svalues (snd p)) = nrows df) (columns df)
      \<and> distinct (map fst (columns df)))"

definition getitem :: "dataframe \<Rightarrow> string \<Rightarrow> py_error + series" where
  \<comment> \<open>\<open>df[name]\<close>\<close>
  "getitem df name =
     (case map_of (columns df) name of
        None \<Rightarrow> Inl (KeyError name)
      | Some s \<Rightarrow> Inr s)"

fun assign :: "string \<Rightarrow> series \<Rightarrow> (string \<times> series) list \<Rightarrow> (string \<times> series) list" where
  "assign name s [] = [(name, s)]"
| "assign name s (p # ps) = (if fst p = name then (name, s) # ps else p # assign name s ps)"

definition setitem :: "dataframe \<Rightarrow> string \<Rightarrow> series \<Rightarrow> dataframe" where
  \<comment> \<open>\<open>df[name] = s\<close>: an existing column is replaced in place, a new one goes last\<close>
  "setitem df name s = df\<lparr>columns := assign name s (columns df)\<rparr>"

definition shift :: "int \<Rightarrow> cell list \<Rightarrow> cell list" where
  \<comment> \<open>\<open>Series.shift(k)\<close>: values move \<open>k\<close> places down (up for negative \<open>k\<close>), the
      vacated places are missing\<close>
  "shift k vs =
     (let n = length vs in
      if 0 \<le> k then replicate (min (nat k) n) Null @ take (n - nat k) vs
      else drop (nat (- k)) vs @ replicate (min (nat (- k)) n) Null)"

definition keep :: "bool list \<Rightarrow> 'a list \<Rightarrow> 'a list" where
  \<comment> \<open>boolean-mask selection of rows\<close>
  "keep flags xs = map snd (filter fst (zip flags xs))"

definition dropna :: "dataframe \<Rightarrow> string \<Rightarrow> py_error + dataframe" where
  \<comment> \<open>\<open>df.dropna(subset=[name])\<close>\<close>
  "dropna df name =
     (case getitem df name of
        Inl e \<Rightarrow> Inl e
      | Inr s \<Rightarrow>
          (let flags = map (\<lambda>c. \<not> isna c) (svalues s) in
           Inr \<lparr>nrows = length (filter id flags),
                columns = map (\<lambda>(k, c). (k, c\<lparr>svalues := keep flags (svalues c)\<rparr>))
                            (columns df)\<rparr>))"

definition startswith :: "string \<Rightarrow> string \<Rightarrow> bool" where
  \<comment> \<open>\<open>s.startswith(p)\<close>\<close>
  "startswith s p = (take (length p) s = p)"

definition select_dtypes_number :: "(string \<times> series) list \<Rightarrow> (string \<times> series) list" where
  \<comment> \<open>\<open>.select_dtypes(include=[np.number])\<close>\<close>
  "select_dtypes_number cs = filter (\<lambda>p. sdtype (snd p) = Number) cs"

definition select_columns :: "dataframe \<Rightarrow> string list \<Rightarrow> dataframe" where
  \<comment> \<open>\<open>df[names]\<close> for names taken from \<open>df.columns\<close>\<close>
  "select_columns df names =
     df\<lparr>columns := concat (map (\<lambda>n. case map_of (columns df) n of
                                        None \<Rightarrow> [] | Some s \<Rightarrow> [(n, s)]) names)\<rparr>"

subsection \<open>Decimal rendering of integers (f-strings)\<close>

definition digit_char :: "nat \<Rightarrow> char" where
  "digit_char d = char_of (48 + d)"

function str_nat :: "nat \<Rightarrow> string" where
  "str_nat n = (if n < 10 then [digit_char n] else str_nat (n div 10) @ [digit_char (n mod 10)])"
  by pat_completeness auto
termination
  by (relation "measure id") auto

declare str_nat.simps [simp del]

definition str_int :: "int \<Rightarrow> string" where
  "str_int i = (if i < 0 then CHR ''-'' # str_nat (nat (- i)) else str_nat (nat i))"

section \<open>Dataset builder (train\_models.py)\<close>

definition TARGET_COLUMN :: string where
  "TARGET_COLUMN = ''housing_price_index_value''"

definition HORIZONS :: "int list" where
  "HORIZONS = [1, 2, 3, 6, 12, 24, 36]"

definition build_supervised_dataset ::
  "dataframe \<Rightarrow> string \<Rightarrow> int \<Rightarrow> py_error + (dataframe \<times> series \<times> series)" where
  "build_supervised_dataset df target_col horizon =
     (let target_name = ''target_h'' @ str_int horizon in
      case getitem df target_col of
        Inl e \<Rightarrow> Inl e
      | Inr tcol \<Rightarrow>
          (let df_work = setitem df target_name
                           (tcol\<lparr>svalues := shift (- horizon) (svalues tcol)\<rparr>) in
           case dropna df_work target_name of
             Inl e \<Rightarrow> Inl e
           | Inr df_work \<Rightarrow>
               (let exclude_cols = ''ref_date'' #
                      filter (\<lambda>col. startswith col ''target_'') (map fst (columns df_work));
                    feature_cols = filter (\<lambda>col. col \<notin> set exclude_cols)
                                     (map fst (columns df_work));
                    numeric_features = map fst (select_dtypes_number
                                         (columns (select_columns df_work feature_cols)));
                    X = select_columns df_work numeric_features
                in
                case getitem df_work target_name of
                  Inl e \<Rightarrow> Inl e
                | Inr y \<Rightarrow>
                    (case getitem df_work ''ref_date'' of
                       Inl e \<Rightarrow> Inl e
                     | Inr dates \<Rightarrow> Inr (X, y, dates)))))"

text \<open>
  A supervised example is one row of the result: the feature values by name, the
  shifted target and the source date.
\<close>

record example =
  features :: "(string \<times> cell) list"
  target :: cell
  source_date :: cell

definition example_at :: "dataframe \<times> series \<times> series \<Rightarrow> nat \<Rightarrow> example" where
  "example_at r i =
     (case r of (X, y, dates) \<Rightarrow>
        \<lparr>features = map (\<lambda>p. (fst p, svalues (snd p) ! i)) (columns X),
         target = svalues y ! i,
         source_date = svalues dates ! i\<rparr>)"

definition examples :: "dataframe \<times> series \<times> series \<Rightarrow> example list" where
  \<comment> \<open>the rows \<open>0 .. len(X) - 1\<close> of the three aligned results\<close>
  "examples r = map (example_at r) [0..<nrows (fst r)]"

definition feature_names :: "dataframe \<times> series \<times> series \<Rightarrow> string list" where
  "feature_names r = map fst (columns (fst r))"

section \<open>Loading the table (train\_models.py, fetch\_data\_from\_supabase)\<close>

text \<open>
  The function receives the frame \<open>pd.DataFrame(response.data)\<close>, whose \<open>ref_date\<close>
  column holds the texts of the table. \<open>pd.to_datetime\<close> is the library's parser and is a
  parameter here: it gives a timestamp, or nothing for a text it cannot read, which
  \<open>errors='coerce'\<close> turns into \<open>NaT\<close>.
\<close>

definition add_suffix :: "series \<Rightarrow> string \<Rightarrow> py_error + cell list" where
  \<comment> \<open>\<open>series + suffix\<close>: text cells are extended, missing ones stay missing, any other
      cell or dtype cannot be added to a text\<close>
  "add_suffix s suffix =
     (if sdtype s = Object \<and> list_all (\<lambda>c. case c of Str _ \<Rightarrow> True | Null \<Rightarrow> True | _ \<Rightarrow> False)
                                 (svalues s)
      then Inr (map (\<lambda>c. case c of Str t \<Rightarrow> Str (t @ suffix) | _ \<Rightarrow> Null) (svalues s))
      else Inl TypeError)"

definition coerce_datetime :: "(string \<Rightarrow> int option) \<Rightarrow> cell \<Rightarrow> cell" where
  "coerce_datetime to_datetime c =
     (case c of
        Str t \<Rightarrow> (case to_datetime t of None \<Rightarrow> Null | Some d \<Rightarrow> Date d)
      | _ \<Rightarrow> Null)"

definition date_key :: "cell \<Rightarrow> int" where
  "date_key c = (case c of Date d \<Rightarrow> d | _ \<Rightarrow> 0)"

definition argsort_dates :: "cell list \<Rightarrow> nat list" where
  \<comment> \<open>the row order of \<open>sort_values\<close>: the dated rows by ascending date, then the rows
      without a date (\<open>na_position='last'\<close>). Rows of equal date keep their order here;
      numpy may order them otherwise\<close>
  "argsort_dates ds =
     sort_key (\<lambda>i. date_key (ds ! i)) (filter (\<lambda>i. \<not> isna (ds ! i)) [0..<length ds])
     @ filter (\<lambda>i. isna (ds ! i)) [0..<length ds]"

definition reorder :: "nat list \<Rightarrow> dataframe \<Rightarrow> dataframe" where
  \<comment> \<open>the rows in the given order, with a fresh index (\<open>reset_index(drop=True)\<close>)\<close>
  "reorder idx df =
     \<lparr>nrows = length idx,
      columns = map (\<lambda>(n, c). (n, c\<lparr>svalues := map (\<lambda>i. svalues c ! i) idx\<rparr>)) (columns df)\<rparr>"

definition fetch_data_from_supabase ::
  "(string \<Rightarrow> int option) \<Rightarrow> bool \<Rightarrow> dataframe \<Rightarrow> py_error + dataframe" where
  "fetch_data_from_supabase to_datetime credentials raw =
     (if \<not> credentials then
        Inl (ValueError ''SUPABASE_URL and SUPABASE_SERVICE_ROLE_KEY must be set in .env file'')
      else
        case getitem raw ''ref_date'' of
          Inl e \<Rightarrow> Inl e
        | Inr col \<Rightarrow>
            (case add_suffix col ''-01'' of
               Inl e \<Rightarrow> Inl e
             | Inr texts \<Rightarrow>
                 (let ds = map (coerce_datetime to_datetime) texts;
                      df = setitem raw ''ref_date'' \<lparr>sdtype = Datetime, svalues = ds\<rparr>;
                      df = reorder (argsort_dates ds) df
                  in if list_all isna ds
                     then Inl (ValueError ''NaTType does not support strftime'')
                     else Inr df)))"

definition earlier :: "cell \<Rightarrow> cell \<Rightarrow> bool" where
  \<comment> \<open>\<open>a < b\<close> on timestamps; every comparison with \<open>NaT\<close> is false\<close>
  "earlier a b = (case (a, b) of (Date s, Date t) \<Rightarrow> s < t | _ \<Rightarrow> False)"

section \<open>IEEE-754 binary64 arithmetic\<close>

text \<open>
  Python floats and numpy \<open>float64\<close> scalars are binary64 numbers. A finite value is
  kept as the rational it denotes; \<open>NZero\<close> is \<open>-0.0\<close>. Every operation computes the
  exact rational result and rounds it to the nearest double, ties to even, with gradual
  underflow below \<open>2^-1022\<close> and overflow to infinity from \<open>2^1024\<close> on. numpy scalar
  arithmetic does not raise on division by zero or overflow: it returns \<open>inf\<close> or
  \<open>nan\<close> (with a warning).
\<close>

datatype fp = Fin rat | NZero | PInf | NInf | NaN

function ilog2 :: "int \<Rightarrow> int" where
  "ilog2 n = (if n < 2 then 0 else 1 + ilog2 (n div 2))"
  by pat_completeness auto
termination
  by (relation "measure nat") auto

declare ilog2.simps [simp del]

definition round_half_even :: "rat \<Rightarrow> int" where
  "round_half_even x =
     (let f = \<lfloor>x\<rfloor>; r = x - of_int f in
      if r < 1 / 2 then f
      else if 1 / 2 < r then f + 1
      else if even f then f else f + 1)"

definition exponent2 :: "rat \<Rightarrow> int" where
  "exponent2 x =
     (if 1 \<le> x then ilog2 \<lfloor>x\<rfloor>
      else - (1 + ilog2 (\<lceil>1 / x\<rceil> - 1)))"

definition ulp :: "rat \<Rightarrow> rat" where
  "ulp a = 2 powi (max (exponent2 a) (- 1022) - 52)"

definition round_mag :: "rat \<Rightarrow> rat" where
  "round_mag a = of_int (round_half_even (a / ulp a)) * ulp a"

definition overflow_threshold :: rat where
  "overflow_threshold = 2 ^ 1024"

definition round_double :: "rat \<Rightarrow> fp" where
  "round_double x =
     (if x = 0 then Fin 0
      else
        (let y = round_mag \<bar>x\<bar>
         in if overflow_threshold \<le> y then (if 0 < x then PInf else NInf)
            else if y = 0 then (if 0 < x then Fin 0 else NZero)
            else Fin (if 0 < x then y else - y)))"

definition is_finite :: "fp \<Rightarrow> bool" where
  "is_finite a = (case a of Fin x \<Rightarrow> True | NZero \<Rightarrow> True | _ \<Rightarrow> False)"

definition fval :: "fp \<Rightarrow> rat" where
  "fval a = (case a of Fin x \<Rightarrow> x | _ \<Rightarrow> 0)"

definition signbit :: "fp \<Rightarrow> bool" where
  "signbit a = (case a of Fin x \<Rightarrow> x < 0 | NZero \<Rightarrow> True | PInf \<Rightarrow> False
                | NInf \<Rightarrow> True | NaN \<Rightarrow> False)"

definition is_zero :: "fp \<Rightarrow> bool" where
  "is_zero a = (a = Fin 0 \<or> a = NZero)"

definition is_inf :: "fp \<Rightarrow> bool" where
  "is_inf a = (a = PInf \<or> a = NInf)"

definition signed_inf :: "bool \<Rightarrow> fp" where
  "signed_inf neg = (if neg then NInf else PInf)"

definition signed_zero :: "bool \<Rightarrow> fp" where
  "signed_zero neg = (if neg then NZero else Fin 0)"

definition fmul :: "fp \<Rightarrow> fp \<Rightarrow> fp" where
  "fmul a b =
     (if a = NaN \<or> b = NaN then NaN
      else if is_inf a \<or> is_inf b then
        (if is_zero a \<or> is_zero b then NaN else signed_inf (signbit a \<noteq> signbit b))
      else if is_zero a \<or> is_zero b then signed_zero (signbit a \<noteq> signbit b)
      else round_double (fval a * fval b))"

definition fdiv :: "fp \<Rightarrow> fp \<Rightarrow> fp" where
  "fdiv a b =
     (if a = NaN \<or> b = NaN then NaN
      else if is_inf a then (if is_inf b then NaN else signed_inf (signbit a \<noteq> signbit b))
      else if is_inf b then signed_zero (signbit a \<noteq> signbit b)
      else if is_zero b then (if is_zero a then NaN else signed_inf (signbit a \<noteq> signbit b))
      else if is_zero a then signed_zero (signbit a \<noteq> signbit b)
      else round_double (fval a / fval b))"

definition fsub :: "fp \<Rightarrow> fp \<Rightarrow> fp" where
  "fsub a b =
     (if a = NaN \<or> b = NaN then NaN
      else if is_inf a then (if is_inf b \<and> signbit a = signbit b then NaN else a)
      else if is_inf b then signed_inf (\<not> signbit b)
      else if is_zero a \<and> is_zero b then (if a = NZero \<and> b = Fin 0 then NZero else Fin 0)
      else round_double (fval a - fval b))"

definition py_float_of_int :: "int \<Rightarrow> py_error + fp" where
  "py_float_of_int n =
     (case round_double (of_int n) of
        PInf \<Rightarrow> Inl OverflowError
      | NInf \<Rightarrow> Inl OverflowError
      | a \<Rightarrow> Inr a)"

definition py_int_of_float :: "fp \<Rightarrow> py_error + int" where
  "py_int_of_float a =
     (case a of
        Fin x \<Rightarrow> Inr (if 0 \<le> x then \<lfloor>x\<rfloor> else \<lceil>x\<rceil>)
      | NZero \<Rightarrow> Inr 0
      | NaN \<Rightarrow> Inl (ValueError ''cannot convert float NaN to integer'')
      | _ \<Rightarrow> Inl OverflowError)"

definition literal_0_8 :: fp where
  \<comment> \<open>the literal \<open>0.8\<close>: the double nearest to 8/10\<close>
  "literal_0_8 = round_double (8 / 10)"

definition split_idx :: "nat \<Rightarrow> py_error + int" where
  "split_idx n =
     (case py_float_of_int (int n) of
        Inl e \<Rightarrow> Inl e
      | Inr a \<Rightarrow> py_int_of_float (fmul a literal_0_8))"

definition pct_change :: "fp \<Rightarrow> fp \<Rightarrow> fp" where
  "pct_change prediction current_hpi =
     fmul (fdiv (fsub prediction current_hpi) current_hpi) (Fin 100)"

section \<open>Prediction service (api/predict.py)\<close>

text \<open>
  The handler reads the query as \<open>parse_qs\<close> returns it: every key present has a first
  value. The environment holds the artifact files under \<open>models/\<close> (written by
  \<open>joblib.dump\<close>, so \<open>joblib.load\<close> returns the regressor), the two Supabase
  credentials, and the rows of \<open>toronto_housing\<close> in the order the store returns them for
  \<open>order("ref_date", desc=True)\<close>. A regressor is opaque: \<open>predict\<close> returns a number
  or raises. The module-level cache \<open>MODELS\<close> is passed in and returned; the trace lists
  the file-system accesses of \<open>load_models\<close>. Strings are modelled as ASCII.
\<close>

type_synonym regressor = "(string \<times> cell) list \<Rightarrow> py_error + fp"

type_synonym jrow = "(string \<times> cell) list"

type_synonym query = "(string \<times> string \<times> string list) list"

record env =
  model_files :: "int \<Rightarrow> regressor option"
  credentials :: bool
  table :: "jrow list"

datatype event = Exists int | Load int

datatype message = Text string | StrOf py_error

record prediction =
  horizon_months :: int
  current_hpi :: fp
  predicted_hpi :: fp
  percentage_change :: fp
  ref_date :: cell
  historical :: "(cell \<times> cell) list option"

datatype body = Error message | Success prediction

record response =
  status :: int
  body :: body

definition digit_val :: "char \<Rightarrow> int option" where
  "digit_val c = (let n = of_char c :: nat in if 48 \<le> n \<and> n \<le> 57 then Some (int n - 48) else None)"

definition is_space :: "char \<Rightarrow> bool" where
  "is_space c = (of_char c \<in> {9, 10, 11, 12, 13, 28, 29, 30, 31, 32 :: nat})"

definition strip :: "string \<Rightarrow> string" where
  "strip s = rev (dropWhile is_space (rev (dropWhile is_space s)))"

fun parse_digits :: "string \<Rightarrow> int \<Rightarrow> int option" where
  "parse_digits [] acc = Some acc"
| "parse_digits (c # cs) acc =
     (case digit_val c of
        Some d \<Rightarrow> parse_digits cs (10 * acc + d)
      | None \<Rightarrow>
          if c = CHR ''_'' \<and> (case cs of [] \<Rightarrow> False | c' # _ \<Rightarrow> digit_val c' \<noteq> None)
          then parse_digits cs acc else None)"

definition py_int :: "string \<Rightarrow> py_error + int" where
  \<comment> \<open>\<open>int(s)\<close> for a text: blanks around, a sign, decimal digits with single
      underscores between them. The text in the message is \<open>repr(s)\<close>, written here with
      plain quotes\<close>
  "py_int s =
     (let bad = Inl (ValueError (''invalid literal for int() with base 10: '' @
                       [CHR 0x27] @ s @ [CHR 0x27]));
          t = strip s;
          neg = (case t of c # _ \<Rightarrow> c = CHR ''-'' | [] \<Rightarrow> False);
          u = (case t of c # cs \<Rightarrow> if c = CHR ''-'' \<or> c = CHR ''+'' then cs else t | [] \<Rightarrow> [])
      in case u of
           [] \<Rightarrow> bad
         | c # _ \<Rightarrow>
             if digit_val c = None then bad
             else (case parse_digits u 0 of
                     None \<Rightarrow> bad
                   | Some v \<Rightarrow> Inr (if neg then - v else v)))"

definition lower_char :: "char \<Rightarrow> char" where
  "lower_char c =
     (case map_of (zip ''ABCDEFGHIJKLMNOPQRSTUVWXYZ'' ''abcdefghijklmnopqrstuvwxyz'') c of
        None \<Rightarrow> c
      | Some d \<Rightarrow> d)"

definition py_lower :: "string \<Rightarrow> string" where
  \<comment> \<open>\<open>s.lower()\<close>\<close>
  "py_lower s = map lower_char s"

definition is_true_ignoring_case :: "string \<Rightarrow> bool" where
  \<comment> \<open>the text is \<open>true\<close> in some mix of upper and lower case\<close>
  "is_true_ignoring_case v =
     (case v of
        [a, b, c, d] \<Rightarrow>
          (a = CHR ''t'' \<or> a = CHR ''T'') \<and> (b = CHR ''r'' \<or> b = CHR ''R'')
          \<and> (c = CHR ''u'' \<or> c = CHR ''U'') \<and> (d = CHR ''e'' \<or> d = CHR ''E'')
      | _ \<Rightarrow> False)"

fun join_ints :: "int list \<Rightarrow> string" where
  "join_ints [] = []"
| "join_ints [i] = str_int i"
| "join_ints (i # is) = str_int i @ '', '' @ join_ints is"

definition str_int_list :: "int list \<Rightarrow> string" where
  \<comment> \<open>\<open>str\<close> of a list of ints, as an f-string renders it\<close>
  "str_int_list is = ''['' @ join_ints is @ '']''"

fun dict_set :: "int \<Rightarrow> regressor \<Rightarrow> (int \<times> regressor) list \<Rightarrow> (int \<times> regressor) list" where
  "dict_set h m [] = [(h, m)]"
| "dict_set h m (p # ps) = (if fst p = h then (h, m) # ps else p # dict_set h m ps)"

fun load_loop ::
  "env \<Rightarrow> int list \<Rightarrow> (int \<times> regressor) list \<Rightarrow> event list
   \<Rightarrow> (int \<times> regressor) list \<times> event list" where
  "load_loop e [] MODELS trace = (MODELS, trace)"
| "load_loop e (h # hs) MODELS trace =
     (case model_files e h of
        None \<Rightarrow> load_loop e hs MODELS (trace @ [Exists h])
      | Some m \<Rightarrow> load_loop e hs (dict_set h m MODELS) (trace @ [Exists h, Load h]))"

definition load_models ::
  "env \<Rightarrow> (int \<times> regressor) list \<Rightarrow> (int \<times> regressor) list \<times> event list" where
  "load_models e MODELS = (if List.null MODELS then load_loop e HORIZONS MODELS [] else (MODELS, []))"

definition frame_of_rows :: "jrow list \<Rightarrow> dataframe" where
  \<comment> \<open>\<open>pd.DataFrame(rows)\<close> for the one row the query returns: a number gives a numeric
      column, a text or a null an object column\<close>
  "frame_of_rows rows =
     (case rows of
        [] \<Rightarrow> \<lparr>nrows = 0, columns = []\<rparr>
      | row # _ \<Rightarrow>
          \<lparr>nrows = 1,
           columns = map (\<lambda>(k, v). (k, \<lparr>sdtype = (case v of Num _ \<Rightarrow> Number | _ \<Rightarrow> Object),
                                          svalues = [v]\<rparr>)) row\<rparr>)"

definition fetch_latest_data :: "env \<Rightarrow> py_error + dataframe" where
  "fetch_latest_data e =
     (if \<not> credentials e then
        Inl (ValueError ''Missing Supabase credentials in environment variables'')
      else
        (let data = take 1 (table e) in
         if List.null data then Inl (ValueError ''No data found in toronto_housing table'')
         else Inr (frame_of_rows data)))"

definition row_get :: "jrow \<Rightarrow> string \<Rightarrow> py_error + cell" where
  \<comment> \<open>\<open>row[key]\<close>\<close>
  "row_get row key = (case map_of row key of None \<Rightarrow> Inl (KeyError key) | Some v \<Rightarrow> Inr v)"

fun historical_pairs :: "jrow list \<Rightarrow> py_error + (cell \<times> cell) list" where
  "historical_pairs [] = Inr []"
| "historical_pairs (row # rows) =
     (case row_get row ''ref_date'' of
        Inl e \<Rightarrow> Inl e
      | Inr d \<Rightarrow>
          (case row_get row ''housing_price_index_value'' of
             Inl e \<Rightarrow> Inl e
           | Inr v \<Rightarrow>
               (case historical_pairs rows of
                  Inl e \<Rightarrow> Inl e
                | Inr ps \<Rightarrow> Inr ((d, v) # ps))))"

definition fetch_historical_data :: "env \<Rightarrow> nat \<Rightarrow> py_error + (cell \<times> cell) list" where
  "fetch_historical_data e months =
     (let data = take months (table e) in
      if List.null data then Inr [] else historical_pairs (rev data))"

definition is_ValueError :: "py_error \<Rightarrow> bool" where
  "is_ValueError e = (case e of ValueError _ \<Rightarrow> True | _ \<Rightarrow> False)"

definition error_response :: "int \<Rightarrow> message \<Rightarrow> response" where
  \<comment> \<open>\<open>send_error_response\<close>\<close>
  "error_response code msg = \<lparr>status = code, body = Error msg\<rparr>"

definition handle_exception :: "py_error \<Rightarrow> response" where
  \<comment> \<open>the two \<open>except\<close> clauses of \<open>do_GET\<close>\<close>
  "handle_exception e =
     (if is_ValueError e then error_response 400 (StrOf e) else error_response 500 (StrOf e))"

definition latest_features :: "dataframe \<Rightarrow> (string \<times> cell) list" where
  \<comment> \<open>"Prepare features": the one-row frame \<open>X\<close> handed to \<open>model.predict\<close>, as the
      feature names with their values\<close>
  "latest_features df =
     (let exclude_cols = [''ref_date'', ''housing_price_index_value''];
          feature_cols = filter (\<lambda>col. col \<notin> set exclude_cols) (map fst (columns df));
          numeric_features = map fst (select_dtypes_number
                               (columns (select_columns df feature_cols)));
          X = select_columns df numeric_features
      in map (\<lambda>(k, c). (k, svalues c ! 0)) (columns X))"

definition predict_body :: "env \<Rightarrow> regressor \<Rightarrow> int \<Rightarrow> bool \<Rightarrow> py_error + prediction" where
  \<comment> \<open>the body of \<open>do_GET\<close> from "Fetch latest data" to the response dictionary\<close>
  "predict_body e model horizon include_historical =
     (case fetch_latest_data e of
        Inl x \<Rightarrow> Inl x
      | Inr df \<Rightarrow>
          (case model (latest_features df) of
             Inl x \<Rightarrow> Inl x
           | Inr prediction \<Rightarrow>
               (case getitem df ''housing_price_index_value'' of
                  Inl x \<Rightarrow> Inl x
                | Inr hcol \<Rightarrow>
                    (case svalues hcol ! 0 of
                       Num c \<Rightarrow>
                         (let pct_change = pct_change prediction (Fin c) in
                          case getitem df ''ref_date'' of
                            Inl x \<Rightarrow> Inl x
                          | Inr rcol \<Rightarrow>
                              (let data = \<lparr>horizon_months = horizon,
                                           current_hpi = Fin c,
                                           predicted_hpi = prediction,
                                           percentage_change = pct_change,
                                           ref_date = svalues rcol ! 0,
                                           historical = None\<rparr>
                               in if include_historical then
                                    (case fetch_historical_data e 12 of
                                       Inl x \<Rightarrow> Inl x
                                     | Inr hist \<Rightarrow> Inr (data\<lparr>historical := Some hist\<rparr>))
                                  else Inr data))
                     | _ \<Rightarrow> Inl TypeError))))"

definition get_horizon :: "query \<Rightarrow> py_error + int" where
  \<comment> \<open>\<open>int(params.get('horizon', [1])[0])\<close>\<close>
  "get_horizon params =
     (case map_of params ''horizon'' of None \<Rightarrow> Inr 1 | Some (v, _) \<Rightarrow> py_int v)"

definition get_include_historical :: "query \<Rightarrow> bool" where
  \<comment> \<open>\<open>params.get('include_historical', ['false'])[0].lower() == 'true'\<close>\<close>
  "get_include_historical params =
     (py_lower (case map_of params ''include_historical'' of
                  None \<Rightarrow> ''false'' | Some (v, _) \<Rightarrow> v) = ''true'')"

definition do_GET ::
  "env \<Rightarrow> (int \<times> regressor) list \<Rightarrow> query
   \<Rightarrow> response \<times> (int \<times> regressor) list \<times> event list" where
  "do_GET e MODELS params =
     (case get_horizon params of
        Inl x \<Rightarrow> (handle_exception x, MODELS, [])
      | Inr horizon \<Rightarrow>
          (let include_historical = get_include_historical params in
           if horizon \<notin> set HORIZONS then
             (error_response 400
                (Text (''Invalid horizon. Must be one of '' @ str_int_list HORIZONS)),
              MODELS, [])
           else
             (case load_models e MODELS of
                (models, trace) \<Rightarrow>
                  (case map_of models horizon of
                     None \<Rightarrow>
                       (error_response 404
                          (Text (''Model for horizon '' @ str_int horizon @ '' not found'')),
                        models, trace)
                   | Some model \<Rightarrow>
                       (case predict_body e model horizon include_historical of
                          Inl x \<Rightarrow> (handle_exception x, models, trace)
                        | Inr data \<Rightarrow> (\<lparr>status = 200, body = Success data\<rparr>, models, trace))))))"

inductive reachable :: "env \<Rightarrow> (int \<times> regressor) list \<Rightarrow> bool" for e where
  start: "reachable e []"
| request: "reachable e MODELS \<Longrightarrow> do_GET e MODELS params = (r, MODELS', trace)
            \<Longrightarrow> reachable e MODELS'"

section \<open>Chronological split (train\_models.py, main)\<close>

definition py_slice_to :: "int \<Rightarrow> 'a list \<Rightarrow> 'a list" where
  \<comment> \<open>\<open>xs[:k]\<close>; a negative \<open>k\<close> counts from the end\<close>
  "py_slice_to k xs =
     (if 0 \<le> k then take (nat k) xs else take (length xs - nat (- k)) xs)"

definition py_slice_from :: "int \<Rightarrow> 'a list \<Rightarrow> 'a list" where
  \<comment> \<open>\<open>xs[k:]\<close>\<close>
  "py_slice_from k xs =
     (if 0 \<le> k then drop (nat k) xs else drop (length xs - nat (- k)) xs)"

definition iloc_to :: "int \<Rightarrow> dataframe \<Rightarrow> dataframe" where
  \<comment> \<open>\<open>df.iloc[:k]\<close>\<close>
  "iloc_to k df =
     \<lparr>nrows = length (py_slice_to k [0..<nrows df]),
      columns = map (\<lambda>(n, c). (n, c\<lparr>svalues := py_slice_to k (svalues c)\<rparr>)) (columns df)\<rparr>"

definition iloc_from :: "int \<Rightarrow> dataframe \<Rightarrow> dataframe" where
  \<comment> \<open>\<open>df.iloc[k:]\<close>\<close>
  "iloc_from k df =
     \<lparr>nrows = length (py_slice_from k [0..<nrows df]),
      columns = map (\<lambda>(n, c). (n, c\<lparr>svalues := py_slice_from k (svalues c)\<rparr>)) (columns df)\<rparr>"

definition series_to :: "int \<Rightarrow> series \<Rightarrow> series" where
  "series_to k s = s\<lparr>svalues := py_slice_to k (svalues s)\<rparr>"

definition series_from :: "int \<Rightarrow> series \<Rightarrow> series" where
  "series_from k s = s\<lparr>svalues := py_slice_from k (svalues s)\<rparr>"

definition train_part :: "int \<Rightarrow> dataframe \<times> series \<times> series \<Rightarrow> dataframe \<times> series \<times> series" where
  \<comment> \<open>the rows before \<open>split_idx\<close>: features, targets and their source dates\<close>
  "train_part k r = (case r of (X, y, dates) \<Rightarrow> (iloc_to k X, series_to k y, series_to k dates))"

definition test_part :: "int \<Rightarrow> dataframe \<times> series \<times> series \<Rightarrow> dataframe \<times> series \<times> series" where
  \<comment> \<open>the rows from \<open>split_idx\<close> on\<close>
  "test_part k r =
     (case r of (X, y, dates) \<Rightarrow> (iloc_from k X, series_from k y, series_from k dates))"

record split =
  X_train :: dataframe
  y_train :: series
  X_test :: dataframe
  y_test :: series
  dates_test :: series

definition train_test_split :: "dataframe \<times> series \<times> series \<Rightarrow> py_error + split" where
  \<comment> \<open>\<open>split_idx = int(len(X) * 0.8)\<close> and the five \<open>iloc\<close> slices\<close>
  "train_test_split r =
     (case split_idx (nrows (fst r)) of
        Inl e \<Rightarrow> Inl e
      | Inr k \<Rightarrow>
          Inr \<lparr>X_train = fst (train_part k r),
               y_train = fst (snd (train_part k r)),
               X_test = fst (test_part k r),
               y_test = fst (snd (test_part k r)),
               dates_test = snd (snd (test_part k r))\<rparr>)"

definition horizon_split :: "dataframe \<Rightarrow> int \<Rightarrow> py_error + split option" where
  \<comment> \<open>one turn of the loop over \<open>HORIZONS\<close>, up to the split; \<open>None\<close> is the skipped
      horizon (\<open>len(X) == 0\<close>)\<close>
  "horizon_split df horizon =
     (case build_supervised_dataset df TARGET_COLUMN horizon of
        Inl e \<Rightarrow> Inl e
      | Inr r \<Rightarrow>
          if nrows (fst r) = 0 then Inr None
          else (case train_test_split r of Inl e \<Rightarrow> Inl e | Inr s \<Rightarrow> Inr (Some s)))"

definition wf_dataset :: "dataframe \<times> series \<times> series \<Rightarrow> bool" where
  \<comment> \<open>features, targets and dates are aligned row by row\<close>
  "wf_dataset r =
     (case r of (X, y, dates) \<Rightarrow>
        list_all (\<lambda>p. length (svalues (snd p)) = nrows X) (columns X)
        \<and> length (svalues y) = nrows X \<and> length (svalues dates) = nrows X)"

subsection \<open>Sample tables\<close>

definition null_target_frame :: dataframe where
  "null_target_frame =
     \<lparr>nrows = 3,
      columns = [(''ref_date'', \<lparr>sdtype = Datetime, svalues = [Date 0, Date 1, Date 2]\<rparr>),
                 (''housing_price_index_value'',
                    \<lparr>sdtype = Number, svalues = [Num 100, Null, Num 102]\<rparr>)]\<rparr>"

definition four_month_frame :: dataframe where
  "four_month_frame =
     \<lparr>nrows = 4,
      columns = [(''ref_date'', \<lparr>sdtype = Datetime, svalues = [Date 0, Date 1, Date 2, Date 3]\<rparr>),
                 (''housing_price_index_value'',
                    \<lparr>sdtype = Number, svalues = [Num 100, Num 101, Num 102, Num 103]\<rparr>),
                 (''unemployment_rate'',
                    \<lparr>sdtype = Number, svalues = [Num 7, Num 6, Null, Num 5]\<rparr>),
                 (''note'', \<lparr>sdtype = Object, svalues = [Str ''a'', Null, Str ''b'', Str ''c'']\<rparr>)]\<rparr>"

definition sample_dataset :: "nat \<Rightarrow> dataframe \<times> series \<times> series" where
  "sample_dataset n =
     (\<lparr>nrows = n,
       columns = [(''unemployment_rate'',
                    \<lparr>sdtype = Number, svalues = map (\<lambda>i. Num (of_nat i)) [0..<n]\<rparr>)]\<rparr>,
      \<lparr>sdtype = Number, svalues = map (\<lambda>i. Num (100 + of_nat i)) [0..<n]\<rparr>,
      \<lparr>sdtype = Datetime, svalues = map (\<lambda>i. Date (int i)) [0..<n]\<rparr>)"

definition parse_year_month :: "string \<Rightarrow> int option" where
  "parse_year_month t =
     (case t of
        [a, b, c, d, m1, e, f, m2, g, h] \<Rightarrow>
          (case (digit_val a, digit_val b, digit_val c, digit_val d, digit_val e, digit_val f) of
             (Some a, Some b, Some c, Some d, Some e, Some f) \<Rightarrow>
               if m1 = CHR ''-'' \<and> m2 = CHR ''-'' \<and> g = CHR ''0'' \<and> h = CHR ''1''
                  \<and> 1 \<le> 10 * e + f \<and> 10 * e + f \<le> 12
               then Some (12 * (1000 * a + 100 * b + 10 * c + d) + (10 * e + f - 1))
               else None
           | _ \<Rightarrow> None)
      | _ \<Rightarrow> None)"

definition raw_frame :: dataframe where
  "raw_frame =
     \<lparr>nrows = 6,
      columns = [(''ref_date'', \<lparr>sdtype = Object,
                    svalues = [Str ''2020-03'', Str ''2020-01'', Str ''2020-06'',
                               Str ''2020-02'', Str ''2020-05'', Str ''2020-04'']\<rparr>),
                 (''housing_price_index_value'', \<lparr>sdtype = Number,
                    svalues = [Num 103, Num 101, Num 106, Num 102, Num 105, Num 104]\<rparr>)]\<rparr>"

definition sorted_frame :: dataframe where
  "sorted_frame =
     \<lparr>nrows = 6,
      columns = [(''ref_date'', \<lparr>sdtype = Datetime,
                    svalues = [Date 24240, Date 24241, Date 24242, Date 24243,
                               Date 24244, Date 24245]\<rparr>),
                 (''housing_price_index_value'', \<lparr>sdtype = Number,
                    svalues = [Num 101, Num 102, Num 103, Num 104, Num 105, Num 106]\<rparr>)]\<rparr>"

definition sorted_dataset :: "dataframe \<times> series \<times> series" where
  "sorted_dataset =
     (\<lparr>nrows = 5,
       columns = [(''housing_price_index_value'', \<lparr>sdtype = Number,
                     svalues = [Num 101, Num 102, Num 103, Num 104, Num 105]\<rparr>)]\<rparr>,
      \<lparr>sdtype = Number, svalues = [Num 102, Num 103, Num 104, Num 105, Num 106]\<rparr>,
      \<lparr>sdtype = Datetime,
        svalues = [Date 24240, Date 24241, Date 24242, Date 24243, Date 24244]\<rparr>)"

definition sample_regressor :: regressor where
  "sample_regressor X = Inr (Fin (321 / 2))"

definition sample_env :: env where
  "sample_env =
     \<lparr>model_files = (\<lambda>h. if h = 1 then Some sample_regressor else None),
      credentials = True,
      table = [[(''ref_date'', Str ''2024-06''), (''housing_price_index_value'', Num 150),
                (''unemployment_rate'', Num 6), (''note'', Str ''x'')],
               [(''ref_date'', Str ''2024-05''), (''housing_price_index_value'', Num 149),
                (''unemployment_rate'', Num 7), (''note'', Str ''y'')]]\<rparr>"

definition empty_table_env :: env where
  "empty_table_env = sample_env\<lparr>table := []\<rparr>"

definition zero_value_env :: env where
  "zero_value_env =
     sample_env\<lparr>table := [[(''ref_date'', Str ''2024-06''),
                             (''housing_price_index_value'', Num 0),
                             (''unemployment_rate'', Num 6)]]\<rparr>"

definition tiny_value_env :: env where
  "tiny_value_env =
     sample_env\<lparr>table := [[(''ref_date'', Str ''2024-06''),
                             (''housing_price_index_value'', Num (1 / 2 ^ 1020)),
                             (''unemployment_rate'', Num 6)]]\<rparr>"

section \<open>Lemmas on the data-frame operations\<close>

lemma isna_Null: "isna Null"
  by (simp add: isna_def)

lemma map_of_assign:
  "map_of (assign name s cs) = (map_of cs)(name \<mapsto> s)"
  by (induction cs) (auto simp: fun_eq_iff)

lemma map_fst_assign_in:
  "name \<in> fst ` set cs \<Longrightarrow> map fst (assign name s cs) = map fst cs"
  by (induction cs) auto

lemma map_fst_assign_notin:
  "name \<notin> fst ` set cs \<Longrightarrow> map fst (assign name s cs) = map fst cs @ [name]"
  by (induction cs) auto

lemma keep_append:
  "length m1 = length xs \<Longrightarrow> keep (m1 @ m2) (xs @ ys) = keep m1 xs @ keep m2 ys"
  by (simp add: keep_def)

lemma keep_all_True:
  "length xs = n \<Longrightarrow> keep (replicate n True) xs = xs"
proof (induction xs arbitrary: n)
  case Nil
  then show ?case by (simp add: keep_def)
next
  case (Cons x xs)
  then obtain m where "n = Suc m" by (cases n) auto
  with Cons show ?case by (simp add: keep_def)
qed

lemma keep_all_False:
  "keep (replicate n False) xs = []"
  by (auto simp: keep_def filter_empty_conv dest: set_zip_leftD)

lemma mask_no_null:
  "Null \<notin> set vs \<Longrightarrow> map (\<lambda>c. \<not> isna c) vs = replicate (length vs) True"
  by (induction vs) (auto simp: isna_def)

lemma mask_all_null:
  "map (\<lambda>c. \<not> isna c) (replicate n Null) = replicate n False"
  by (simp add: isna_def)

lemma shift_neg:
  "0 \<le> h \<Longrightarrow> shift (- h) vs = drop (nat h) vs @ replicate (min (nat h) (length vs)) Null"
  by (cases "h = 0") (auto simp: shift_def Let_def)

lemma keep_shift_no_null:
  assumes "Null \<notin> set vs" "0 \<le> h"
  shows "keep (map (\<lambda>c. \<not> isna c) (shift (- h) vs)) (shift (- h) vs) = drop (nat h) vs"
proof -
  let ?d = "drop (nat h) vs" and ?r = "replicate (min (nat h) (length vs)) Null"
  have nn: "Null \<notin> set ?d" using assms(1) by (meson in_set_dropD)
  have "keep (map (\<lambda>c. \<not> isna c) (?d @ ?r)) (?d @ ?r)
        = keep (map (\<lambda>c. \<not> isna c) ?d) ?d @ keep (map (\<lambda>c. \<not> isna c) ?r) ?r"
    by (simp add: keep_append)
  also have "\<dots> = ?d"
    by (simp only: mask_no_null [OF nn] mask_all_null keep_all_True [OF refl]
                   keep_all_False append_Nil2)
  finally show ?thesis by (simp add: shift_neg [OF assms(2)])
qed

lemma count_mask_shift_no_null:
  assumes "Null \<notin> set vs" "0 \<le> h"
  shows "length (filter id (map (\<lambda>c. \<not> isna c) (shift (- h) vs))) = length vs - nat h"
proof -
  have nn: "Null \<notin> set (drop (nat h) vs)" using assms(1) by (meson in_set_dropD)
  have m: "map (\<lambda>c. \<not> isna c) (shift (- h) vs)
           = replicate (length vs - nat h) True @ replicate (min (nat h) (length vs)) False"
    by (simp add: shift_neg [OF assms(2)] mask_no_null [OF nn] isna_Null)
  show ?thesis by (simp add: m)
qed

lemma getitem_setitem_same: "getitem (setitem df n s) n = Inr s"
  by (simp add: getitem_def setitem_def map_of_assign)

lemma getitem_setitem_other: "n' \<noteq> n \<Longrightarrow> getitem (setitem df n s) n' = getitem df n'"
  by (simp add: getitem_def setitem_def map_of_assign)

lemma getitem_Inr_iff: "getitem df n = Inr s \<longleftrightarrow> map_of (columns df) n = Some s"
  by (simp add: getitem_def split: option.splits)

lemma dropna_Inr:
  assumes "getitem df n = Inr s"
  shows "dropna df n = Inr \<lparr>nrows = length (filter id (map (\<lambda>c. \<not> isna c) (svalues s))),
            columns = map (\<lambda>(k, c). (k, c\<lparr>svalues := keep (map (\<lambda>c. \<not> isna c) (svalues s)) (svalues c)\<rparr>))
                            (columns df)\<rparr>"
  using assms by (simp add: dropna_def Let_def)

lemma getitem_mapped:
  "getitem \<lparr>nrows = k, columns = map (\<lambda>(k, c). (k, f c)) cs\<rparr> n
   = (case map_of cs n of None \<Rightarrow> Inl (KeyError n) | Some s \<Rightarrow> Inr (f s))"
  by (simp add: getitem_def map_of_map split: option.splits)

lemma target_name_not_ref_date: "''target_h'' @ s \<noteq> ''ref_date''"
  by simp

lemma build_result:
  fixes h :: int
  assumes t: "getitem df target_col = Inr tcol"
      and d: "getitem df ''ref_date'' = Inr dcol"
  defines "vs \<equiv> shift (- h) (svalues tcol)"
  defines "flags \<equiv> map (\<lambda>c. \<not> isna c) vs"
  shows "\<exists>X y dates. build_supervised_dataset df target_col h = Inr (X, y, dates)
           \<and> nrows X = length (filter id flags)
           \<and> svalues y = keep flags vs
           \<and> svalues dates = keep flags (svalues dcol)"
proof -
  define tn where "tn = ''target_h'' @ str_int h"
  let ?s = "tcol\<lparr>svalues := vs\<rparr>"
  let ?df1 = "setitem df tn ?s"
  have ne: "tn \<noteq> ''ref_date''" by (simp add: tn_def)
  have g1: "getitem ?df1 tn = Inr ?s" by (rule getitem_setitem_same)
  have g2: "map_of (columns ?df1) ''ref_date'' = Some dcol"
    using d ne by (simp add: getitem_Inr_iff setitem_def map_of_assign)
  have g3: "map_of (columns ?df1) tn = Some ?s"
    by (simp add: setitem_def map_of_assign)
  show ?thesis
    unfolding build_supervised_dataset_def Let_def tn_def[symmetric]
    using t g2 g3 dropna_Inr[OF g1]
    by (simp add: getitem_mapped flags_def vs_def select_columns_def)
qed

lemma str_int_1: "str_int 1 = ''1''"
  by code_simp

section \<open>C1: size and alignment of the supervised dataset\<close>

text \<open>
  C1, as amended. For every horizon \<open>h \<ge> 1\<close> and every table of \<open>n\<close> rows that has
  the target column and a \<open>ref_date\<close> column, and whose target column holds no missing
  value, \<open>build_supervised_dataset\<close> returns exactly \<open>max(0, n - h)\<close> examples, and the
  target of example \<open>i\<close> is the target-column value of row \<open>i + h\<close>.
\<close>

theorem build_examples_shifted_target:
  fixes h :: int
  assumes wf: "wf_frame df"
      and t: "getitem df target_col = Inr tcol"
      and d: "getitem df ''ref_date'' = Inr dcol"
      and nn: "Null \<notin> set (svalues tcol)"
      and h: "1 \<le> h"
  shows "\<exists>r. build_supervised_dataset df target_col h = Inr r
           \<and> length (examples r) = nat (max 0 (int (nrows df) - h))
           \<and> (\<forall>i < length (examples r).
                 target (examples r ! i) = svalues tcol ! (i + nat h))"
proof -
  have h0: "0 \<le> h" using h by simp
  from build_result [OF t d, of h] obtain X y dates where
    b: "build_supervised_dataset df target_col h = Inr (X, y, dates)"
    and n0: "nrows X = length (filter id (map (\<lambda>c. \<not> isna c) (shift (- h) (svalues tcol))))"
    and y0: "svalues y = keep (map (\<lambda>c. \<not> isna c) (shift (- h) (svalues tcol)))
                           (shift (- h) (svalues tcol))"
    by blast
  have n: "nrows X = length (svalues tcol) - nat h"
    using n0 by (simp only: count_mask_shift_no_null [OF nn h0])
  have y: "svalues y = drop (nat h) (svalues tcol)"
    using y0 by (simp only: keep_shift_no_null [OF nn h0])
  have len: "length (svalues tcol) = nrows df"
    using wf t by (auto simp: wf_frame_def getitem_Inr_iff list_all_iff dest: map_of_SomeD)
  have l: "length (examples (X, y, dates)) = nat (max 0 (int (nrows df) - h))"
    using n len h0 by (simp add: examples_def)
  have tg: "target (examples (X, y, dates) ! i) = svalues tcol ! (i + nat h)"
    if "i < length (examples (X, y, dates))" for i
    using that n y by (simp add: examples_def example_at_def add.commute)
  show ?thesis using b l tg by blast
qed

text \<open>
  Without the restriction the count fails: \<open>dropna\<close> also drops a row whose shifted
  target is a missing value of the table itself. Three rows with targets
  \<open>100, missing, 102\<close> and horizon 1 give one example, not two, and its target 102 is
  that of row 2.
\<close>

theorem build_null_target_counterexample:
  "nrows null_target_frame = 3
   \<and> map_sum id (\<lambda>r. map target (examples r))
         (build_supervised_dataset null_target_frame ''housing_price_index_value'' 1)
       = Inr [Num 102]
   \<and> length [Num 102] \<noteq> nat (max 0 (3 - 1))"
  by (simp add: build_supervised_dataset_def null_target_frame_def str_int_1 getitem_def
      setitem_def dropna_def shift_def keep_def isna_def select_columns_def
      select_dtypes_number_def startswith_def examples_def example_at_def Let_def)

theorem build_examples_shifted_target_witness:
  "wf_frame four_month_frame
   \<and> Null \<notin> set [Num 100, Num 101, Num 102, Num 103]
   \<and> (\<exists>r. build_supervised_dataset four_month_frame ''housing_price_index_value'' 1 = Inr r
          \<and> length (examples r) = 3
          \<and> target (examples r ! 0) = Num 101
          \<and> target (examples r ! 2) = Num 103)"
proof -
  let ?tcol = "\<lparr>sdtype = Number, svalues = [Num 100, Num 101, Num 102, Num 103]\<rparr>"
  let ?dcol = "\<lparr>sdtype = Datetime, svalues = [Date 0, Date 1, Date 2, Date 3]\<rparr>"
  have wf: "wf_frame four_month_frame"
    by (simp add: wf_frame_def four_month_frame_def)
  have t: "getitem four_month_frame ''housing_price_index_value'' = Inr ?tcol"
    by (simp add: getitem_def four_month_frame_def)
  have d: "getitem four_month_frame ''ref_date'' = Inr ?dcol"
    by (simp add: getitem_def four_month_frame_def)
  have nn: "Null \<notin> set (svalues ?tcol)" by simp
  have n4: "nrows four_month_frame = 4" by (simp add: four_month_frame_def)
  from build_examples_shifted_target [OF wf t d nn, of 1] obtain r where
    b: "build_supervised_dataset four_month_frame ''housing_price_index_value'' 1 = Inr r"
    and l: "length (examples r) = 3"
    and tg: "\<forall>i < length (examples r). target (examples r ! i) = svalues ?tcol ! (i + nat 1)"
    by (auto simp: n4)
  have "target (examples r ! 0) = Num 101" "target (examples r ! 2) = Num 103"
    using tg l by simp_all
  with wf b l show ?thesis by auto
qed


section \<open>Lemmas on rounding\<close>

lemma ilog2_nonneg: "0 \<le> ilog2 n"
  by (induction n rule: ilog2.induct) (subst ilog2.simps, simp)

lemma ilog2_bounds:
  "1 \<le> n \<Longrightarrow> 2 ^ nat (ilog2 n) \<le> n \<and> n < 2 * 2 ^ nat (ilog2 n)"
proof (induction n rule: ilog2.induct)
  case (1 n)
  show ?case
  proof (cases "n < 2")
    case True
    with "1.prems" have "n = 1" by simp
    then show ?thesis by (simp add: ilog2.simps)
  next
    case False
    then have h: "1 \<le> n div 2" by simp
    from "1.IH" [OF False h]
    have lo: "2 ^ nat (ilog2 (n div 2)) \<le> n div 2"
      and hi: "n div 2 < 2 * 2 ^ nat (ilog2 (n div 2))" by simp_all
    have e: "ilog2 n = 1 + ilog2 (n div 2)" using False by (subst ilog2.simps) simp
    have p: "(2::int) ^ nat (ilog2 n) = 2 * 2 ^ nat (ilog2 (n div 2))"
      using ilog2_nonneg [of "n div 2"] by (simp add: e nat_add_distrib)
    show ?thesis using lo hi unfolding p by linarith
  qed
qed

lemma pow2_pos: "0 < (2::rat) powi e"
  by (simp add: power_int_def)

lemma exponent2_bounds:
  assumes "0 < x"
  shows "2 powi (exponent2 x) \<le> x \<and> x < 2 powi (exponent2 x + 1)"
proof (cases "1 \<le> x")
  case True
  let ?n = "\<lfloor>x\<rfloor>"
  have n1: "1 \<le> ?n" using True by simp
  from ilog2_bounds [OF n1] have lo: "2 ^ nat (ilog2 ?n) \<le> ?n"
    and hi: "?n < 2 * 2 ^ nat (ilog2 ?n)" by simp_all
  have e: "exponent2 x = ilog2 ?n" using True by (simp add: exponent2_def)
  have k: "0 \<le> ilog2 ?n" by (rule ilog2_nonneg)
  have p0: "(2::rat) powi (ilog2 ?n) = of_int (2 ^ nat (ilog2 ?n))"
    using k by (simp add: power_int_def)
  have p1: "(2::rat) powi (ilog2 ?n + 1) = of_int (2 * 2 ^ nat (ilog2 ?n))"
    using k by (simp add: power_int_def nat_add_distrib)
  have a: "of_int (2 ^ nat (ilog2 ?n)) \<le> x"
    using lo by (meson le_floor_iff)
  have b: "x < of_int (2 * 2 ^ nat (ilog2 ?n))"
    using hi by (meson floor_less_iff)
  show ?thesis unfolding e p0 p1 using a b by simp
next
  case False
  let ?y = "1 / x"
  let ?m = "\<lceil>?y\<rceil>"
  have y1: "1 < ?y" using False assms by simp
  have m2: "2 \<le> ?m" using y1 by linarith
  let ?k = "ilog2 (?m - 1)"
  have m1: "1 \<le> ?m - 1" using m2 by simp
  from ilog2_bounds [OF m1] have lo: "2 ^ nat ?k \<le> ?m - 1"
    and hi: "?m - 1 < 2 * 2 ^ nat ?k" by simp_all
  have k: "0 \<le> ?k" by (rule ilog2_nonneg)
  have e: "exponent2 x = - (1 + ?k)" using False by (simp add: exponent2_def)
  \<comment> \<open>\<open>2 ^ k < y \<le> 2 ^ (k + 1)\<close>\<close>
  have a: "of_int (2 ^ nat ?k) < ?y"
  proof -
    have "2 ^ nat ?k < ?m" using lo by simp
    then show ?thesis by (simp only: less_ceiling_iff)
  qed
  have b: "?y \<le> of_int (2 * 2 ^ nat ?k)"
  proof -
    have "?m \<le> 2 * 2 ^ nat ?k" using hi by simp
    then show ?thesis by (simp only: ceiling_le_iff)
  qed
  have P: "(0::rat) < 2 ^ nat ?k" by simp
  have p0: "(2::rat) powi (- (1 + ?k)) = 1 / (2 * 2 ^ nat ?k)"
    using k by (simp add: power_int_def nat_add_distrib field_simps)
  have p1: "(2::rat) powi (- (1 + ?k) + 1) = 1 / 2 ^ nat ?k"
    using k by (simp add: power_int_def field_simps)
  have lo': "1 / (2 * 2 ^ nat ?k) \<le> x"
    using b assms P by (simp add: field_simps)
  have hi': "x < 1 / 2 ^ nat ?k"
    using a assms P by (simp add: field_simps)
  show ?thesis unfolding e p0 p1 using lo' hi' by simp
qed

lemma round_half_even_cases:
  "round_half_even y = \<lfloor>y\<rfloor> \<and> y - of_int \<lfloor>y\<rfloor> \<le> 1 / 2
   \<or> round_half_even y = \<lfloor>y\<rfloor> + 1 \<and> 1 / 2 \<le> y - of_int \<lfloor>y\<rfloor>"
  unfolding round_half_even_def Let_def by auto

lemma round_half_even_error: "\<bar>of_int (round_half_even y) - y\<bar> \<le> 1 / 2"
proof -
  have f: "of_int \<lfloor>y\<rfloor> \<le> y" "y < of_int \<lfloor>y\<rfloor> + 1" by linarith+
  from round_half_even_cases [of y] show ?thesis
  proof
    assume "round_half_even y = \<lfloor>y\<rfloor> \<and> y - of_int \<lfloor>y\<rfloor> \<le> 1 / 2"
    then show ?thesis using f by (simp add: abs_le_iff)
  next
    assume "round_half_even y = \<lfloor>y\<rfloor> + 1 \<and> 1 / 2 \<le> y - of_int \<lfloor>y\<rfloor>"
    then show ?thesis using f by (simp add: abs_le_iff)
  qed
qed

lemma round_half_even_ge: "of_int z \<le> y \<Longrightarrow> z \<le> round_half_even y"
proof -
  assume "of_int z \<le> y"
  then have "z \<le> \<lfloor>y\<rfloor>" by (simp add: le_floor_iff)
  then show ?thesis using round_half_even_cases [of y] by auto
qed

lemma round_half_even_le: "y \<le> of_int z \<Longrightarrow> round_half_even y \<le> z"
proof -
  assume a: "y \<le> of_int z"
  have e: "\<bar>of_int (round_half_even y) - y\<bar> \<le> 1 / 2" by (rule round_half_even_error)
  show ?thesis
  proof (cases "y = of_int z")
    case True
    then show ?thesis by (simp add: round_half_even_def)
  next
    case False
    with a have lt: "y < of_int z" by simp
    then have f: "\<lfloor>y\<rfloor> < z" by (simp add: floor_less_iff)
    show ?thesis
      unfolding round_half_even_def Let_def using f by auto
  qed
qed

lemma ulp_pos: "0 < ulp a"
  by (simp add: ulp_def pow2_pos)

lemma round_mag_error: "\<bar>round_mag a - a\<bar> \<le> ulp a / 2"
proof -
  have u: "0 < ulp a" by (rule ulp_pos)
  have "round_mag a - a = (of_int (round_half_even (a / ulp a)) - a / ulp a) * ulp a"
    using u by (simp add: round_mag_def field_simps)
  then have "\<bar>round_mag a - a\<bar> = \<bar>of_int (round_half_even (a / ulp a)) - a / ulp a\<bar> * ulp a"
    using u by (simp add: abs_mult)
  also have "\<dots> \<le> (1 / 2) * ulp a"
    using round_half_even_error [of "a / ulp a"] u by (intro mult_right_mono) simp_all
  finally show ?thesis by simp
qed

lemma round_mag_nonneg: "0 \<le> a \<Longrightarrow> 0 \<le> round_mag a"
proof -
  assume "0 \<le> a"
  then have "of_int 0 \<le> a / ulp a" using ulp_pos [of a] by simp
  then have "0 \<le> round_half_even (a / ulp a)" by (rule round_half_even_ge)
  then show ?thesis using ulp_pos [of a] by (simp add: round_mag_def)
qed

lemma ulp_le:
  assumes "0 < a"
  shows "ulp a \<le> a / 2 ^ 52 + 1 / 2 ^ 1074"
proof (cases "- 1022 \<le> exponent2 a")
  case True
  then have "ulp a = 2 powi (exponent2 a - 52)" by (simp add: ulp_def max_def)
  also have "\<dots> = 2 powi (exponent2 a) / 2 ^ 52"
    by (simp add: power_int_diff)
  also have "\<dots> \<le> a / 2 ^ 52"
    using exponent2_bounds [OF assms] by (simp add: divide_right_mono)
  finally show ?thesis by (simp add: add_increasing2)
next
  case False
  then have "ulp a = 2 powi (- 1074)" by (simp add: ulp_def max_def)
  then have "ulp a = 1 / 2 ^ 1074" by (simp add: power_int_def field_simps)
  then show ?thesis using assms by simp
qed

lemma round_mag_bracket:
  assumes "of_int i * ulp a \<le> a" "a \<le> of_int j * ulp a"
  shows "of_int i * ulp a \<le> round_mag a \<and> round_mag a \<le> of_int j * ulp a"
proof -
  have u: "0 < ulp a" by (rule ulp_pos)
  have "of_int i \<le> a / ulp a" using assms(1) u by (simp add: field_simps)
  then have lo: "i \<le> round_half_even (a / ulp a)" by (rule round_half_even_ge)
  have "a / ulp a \<le> of_int j" using assms(2) u by (simp add: field_simps)
  then have hi: "round_half_even (a / ulp a) \<le> j" by (rule round_half_even_le)
  show ?thesis using lo hi u by (simp add: round_mag_def)
qed

lemma exponent2_less:
  assumes "0 < a" "a < 2 ^ n"
  shows "exponent2 a < int n"
proof (rule ccontr)
  assume "\<not> exponent2 a < int n"
  then have "int n \<le> exponent2 a" by simp
  then have "(2::rat) powi (int n) \<le> 2 powi (exponent2 a)"
    by (intro power_int_increasing) simp_all
  also have "\<dots> \<le> a" using exponent2_bounds [OF assms(1)] by simp
  finally show False using assms(2) by simp
qed

lemma ulp_small:
  assumes "0 < a" "a < 2 ^ 50"
  shows "\<exists>k. ulp a * 2 ^ k = 1 / 8"
proof -
  let ?e = "max (exponent2 a) (- 1022)"
  have "exponent2 a < 50" using exponent2_less [OF assms] by simp
  then have e: "?e \<le> 49" "- 1022 \<le> ?e" by simp_all
  define k where "k = nat (49 - ?e)"
  have "ulp a * 2 ^ k = 2 powi (?e - 52) * 2 powi (int k)"
    by (simp add: ulp_def)
  also have "\<dots> = 2 powi (?e - 52 + int k)"
    by (simp add: power_int_add)
  also have "?e - 52 + int k = - 3" using e by (simp add: k_def)
  finally have "ulp a * 2 ^ k = 2 powi (- 3)" .
  also have "(2::rat) powi (- 3) = 1 / 8" by (simp add: power_int_def power3_eq_cube)
  finally show ?thesis by blast
qed

lemma round_mag_eighths:
  assumes a: "0 < a" "a < 2 ^ 50"
      and lo: "of_int i / 8 \<le> a" and hi: "a \<le> of_int j / 8"
  shows "of_int i / 8 \<le> round_mag a \<and> round_mag a \<le> of_int j / 8"
proof -
  from ulp_small [OF a] obtain k where k: "ulp a * 2 ^ k = 1 / 8" by blast
  have i: "of_int i / 8 = of_int (i * 2 ^ k) * ulp a"
    using k by (simp add: field_simps)
  have j: "of_int j / 8 = of_int (j * 2 ^ k) * ulp a"
    using k by (simp add: field_simps)
  show ?thesis
    unfolding i j by (rule round_mag_bracket) (use lo hi i j in simp_all)
qed

lemma round_double_error:
  assumes "is_finite (round_double x)"
  shows "\<bar>fval (round_double x) - x\<bar> \<le> \<bar>x\<bar> / 2 ^ 53 + 1 / 2 ^ 1075"
proof (cases "x = 0")
  case True
  then show ?thesis by (simp add: round_double_def fval_def)
next
  case False
  let ?a = "\<bar>x\<bar>"
  have a: "0 < ?a" using False by simp
  have err: "\<bar>round_mag ?a - ?a\<bar> \<le> ?a / 2 ^ 53 + 1 / 2 ^ 1075"
  proof -
    have "\<bar>round_mag ?a - ?a\<bar> \<le> ulp ?a / 2" by (rule round_mag_error)
    also have "\<dots> \<le> (?a / 2 ^ 52 + 1 / 2 ^ 1074) / 2"
      using ulp_le [OF a] by (simp add: divide_right_mono)
    also have "\<dots> = ?a / 2 ^ 53 + 1 / 2 ^ 1075" by (simp add: field_simps)
    finally show ?thesis .
  qed
  have v: "fval (round_double x) = (if 0 < x then round_mag ?a else - round_mag ?a)"
    using assms False
    by (auto simp: round_double_def Let_def fval_def is_finite_def split: if_splits)
  show ?thesis
  proof (cases "0 < x")
    case True
    then show ?thesis using err v by simp
  next
    case neg: False
    then have "fval (round_double x) - x = - (round_mag ?a - ?a)" using v False by simp
    then show ?thesis using err by (simp only: abs_minus)
  qed
qed

lemma literal_0_8_value: "literal_0_8 = Fin (3602879701896397 / 4503599627370496)"
  by code_simp

lemma below_overflow: "(2::rat) ^ 50 < overflow_threshold"
  unfolding overflow_threshold_def by (rule power_strict_increasing) simp_all

lemma round_double_small:
  assumes a: "0 < a" "a < 2 ^ 50"
      and lo: "of_int i / 8 \<le> a" and hi: "a \<le> of_int j / 8" and i: "0 \<le> i"
  shows "\<exists>y. round_double a = Fin y \<and> of_int i / 8 \<le> y \<and> y \<le> of_int j / 8"
proof -
  from round_mag_eighths [OF a lo hi]
  have b: "of_int i / 8 \<le> round_mag a" "round_mag a \<le> of_int j / 8" by simp_all
  have "a \<le> of_int (8 * 2 ^ 50) / 8" using a(2) by simp
  from round_mag_eighths [OF a lo this] have "round_mag a \<le> 2 ^ 50" by simp
  then have nov: "\<not> overflow_threshold \<le> round_mag a" using below_overflow by linarith
  have abs: "\<bar>a\<bar> = a" using a(1) by simp
  have ne: "a \<noteq> 0" using a(1) by simp
  have p: "0 < a" by (rule a(1))
  show ?thesis
  proof (cases "round_mag a = 0")
    case True
    have "round_double a = Fin 0"
      unfolding round_double_def Let_def abs using ne nov True p by simp
    then show ?thesis using b True by simp
  next
    case False
    have "round_double a = Fin (round_mag a)"
      unfolding round_double_def Let_def abs using ne nov False p by simp
    then show ?thesis using b by simp
  qed
qed

lemma round_double_of_nat:
  assumes "0 < n" "n < 2 ^ 50"
  shows "round_double (of_nat n) = Fin (of_nat n)"
proof -
  have a: "(0::rat) < of_nat n" using assms(1) by simp
  have b: "(of_nat n :: rat) < 2 ^ 50"
    using assms(2) by (metis of_nat_less_iff of_nat_numeral of_nat_power)
  have lo: "of_int (8 * int n) / 8 \<le> (of_nat n :: rat)" by simp
  have hi: "(of_nat n :: rat) \<le> of_int (8 * int n) / 8" by simp
  have i: "0 \<le> 8 * int n" by simp
  from round_double_small [OF a b lo hi i]
  obtain y where "round_double (of_nat n) = Fin y" "of_int (8 * int n) / 8 \<le> y"
    "y \<le> of_int (8 * int n) / 8" by blast
  then show ?thesis by simp
qed

lemma split_idx_eq:
  assumes "0 < n" "n < 2 ^ 50"
  shows "split_idx n = Inr (int (4 * n div 5))"
proof -
  let ?N = "of_nat n :: rat"
  let ?c = "3602879701896397 / 4503599627370496 :: rat"
  let ?k = "int (4 * n div 5)"
  have N0: "0 < ?N" using assms(1) by simp
  have N1: "?N < 2 ^ 50"
    using assms(2) by (metis of_nat_less_iff of_nat_numeral of_nat_power)
  have fl: "py_float_of_int (int n) = Inr (Fin ?N)"
    using round_double_of_nat [OF assms] by (simp add: py_float_of_int_def)
  have mul: "fmul (Fin ?N) literal_0_8 = round_double (?N * ?c)"
    using N0 by (simp add: literal_0_8_value fmul_def is_inf_def is_zero_def fval_def)
  have k1: "5 * ?k \<le> 4 * int n" by simp
  have k2: "4 * int n \<le> 5 * ?k + 4" by (simp add: zdiv_int)
  have r1: "5 * of_int ?k \<le> 4 * ?N"
  proof -
    have "(of_int (5 * ?k) :: rat) \<le> of_int (4 * int n)"
      using k1 by (simp only: of_int_le_iff)
    then show ?thesis by simp
  qed
  have r2: "4 * ?N \<le> 5 * of_int ?k + 4"
  proof -
    have "(of_int (4 * int n) :: rat) \<le> of_int (5 * ?k + 4)"
      using k2 by (simp only: of_int_le_iff)
    then show ?thesis by simp
  qed
  have x0: "0 < ?N * ?c" using N0 by simp
  have x1: "?N * ?c < 2 ^ 50" using N0 N1 by simp
  have lo: "of_int (8 * ?k) / 8 \<le> ?N * ?c" using r1 N0 by simp
  have hi: "?N * ?c \<le> of_int (8 * ?k + 7) / 8" using r2 N1 by simp
  have i: "0 \<le> 8 * ?k" by simp
  from round_double_small [OF x0 x1 lo hi i]
  obtain y where y: "round_double (?N * ?c) = Fin y"
    and yl: "of_int (8 * ?k) / 8 \<le> y" and yh: "y \<le> of_int (8 * ?k + 7) / 8" by blast
  have y0: "0 \<le> y" using yl by simp
  have "\<lfloor>y\<rfloor> = ?k"
  proof (rule floor_unique)
    show "of_int ?k \<le> y" using yl by simp
    show "y < of_int ?k + 1" using yh by simp
  qed
  then have r: "py_int_of_float (Fin y) = Inr ?k"
    using y0 by (simp add: py_int_of_float_def)
  have "split_idx n = py_int_of_float (round_double (?N * ?c))"
    by (simp only: split_idx_def fl mul sum.case)
  also have "\<dots> = py_int_of_float (Fin y)" by (simp only: y)
  finally show ?thesis by (simp only: r)
qed


lemma exponent2_eq:
  assumes "2 ^ n \<le> a" "a < 2 ^ Suc n"
  shows "exponent2 a = int n"
proof -
  have a0: "0 < a" using assms(1) by (rule less_le_trans [rotated]) simp
  have up: "exponent2 a < int (Suc n)" by (rule exponent2_less [OF a0 assms(2)])
  have "\<not> exponent2 a < int n"
  proof
    assume "exponent2 a < int n"
    then have "exponent2 a + 1 \<le> int n" by simp
    then have "(2::rat) powi (exponent2 a + 1) \<le> 2 powi (int n)"
      by (intro power_int_increasing) simp_all
    moreover have "a < 2 powi (exponent2 a + 1)" using exponent2_bounds [OF a0] by simp
    ultimately show False using assms(1) by simp
  qed
  with up show ?thesis by simp
qed

lemma ulp_binade50:
  assumes "2 ^ 50 \<le> a" "a < 2 ^ 51"
  shows "ulp a = 1 / 4"
proof -
  have "a < 2 ^ Suc 50" using assms(2) by simp
  from exponent2_eq [OF assms(1) this] have "exponent2 a = 50" by simp
  then show ?thesis by (simp add: ulp_def power_int_def power2_eq_square)
qed

lemma overflow_above_binade50: "(2::rat) ^ 51 < overflow_threshold"
  unfolding overflow_threshold_def by (rule power_strict_increasing) simp_all

lemma round_double_binade50:
  assumes "2 ^ 50 \<le> a" "a < 2 ^ 51"
      and "round_half_even (a * 4) = m" "0 < m" "m \<le> 2 ^ 53"
  shows "round_double a = Fin (of_int m / 4)"
proof -
  have a0: "0 < a" using assms(1) by (rule less_le_trans [rotated]) simp
  have rm: "round_mag a = of_int m / 4"
    by (simp add: round_mag_def ulp_binade50 [OF assms(1,2)] assms(3))
  have pos: "round_mag a \<noteq> 0" using assms(4) by (simp add: rm)
  have "(of_int m :: rat) \<le> of_int (2 ^ 53)" using assms(5) by (simp only: of_int_le_iff)
  then have "round_mag a \<le> 2 ^ 51" by (simp add: rm)
  then have nov: "\<not> overflow_threshold \<le> round_mag a"
    using overflow_above_binade50 by linarith
  have abs: "\<bar>a\<bar> = a" using a0 by simp
  have ne: "a \<noteq> 0" using a0 by simp
  show ?thesis
    unfolding round_double_def Let_def abs using ne nov pos a0 by (simp add: rm)
qed

lemma split_idx_large: "split_idx 1688849860263936 = Inr 1351079888211149"
proof -
  define N :: rat where "N = 1688849860263936"
  define x :: rat where "x = 10808639105689191 / 8"
  have N1: "2 ^ 50 \<le> N" and N2: "N < 2 ^ 51" by (simp_all add: N_def)
  have Nr: "round_half_even (N * 4) = 6755399441055744"
    by (simp add: N_def round_half_even_def Let_def)
  have "round_double N = Fin (of_int 6755399441055744 / 4)"
    by (rule round_double_binade50 [OF N1 N2 Nr]) simp_all
  then have rN: "round_double N = Fin N" by (simp add: N_def)
  have x1: "2 ^ 50 \<le> x" and x2: "x < 2 ^ 51" by (simp_all add: x_def)
  have xf: "\<lfloor>x * 4\<rfloor> = 5404319552844595"
    by (rule floor_unique) (simp_all add: x_def)
  have xr: "round_half_even (x * 4) = 5404319552844596"
    unfolding round_half_even_def Let_def xf by (simp add: x_def)
  have "round_double x = Fin (of_int 5404319552844596 / 4)"
    by (rule round_double_binade50 [OF x1 x2 xr]) simp_all
  then have rx: "round_double x = Fin 1351079888211149" by simp
  have fl: "py_float_of_int (int 1688849860263936) = Inr (Fin N)"
    using rN by (simp add: py_float_of_int_def N_def)
  have p: "N * 3602879701896397 / 4503599627370496 = x" by (simp add: N_def x_def)
  have N0: "N \<noteq> 0" by (simp add: N_def)
  have mul: "fmul (Fin N) literal_0_8 = round_double x"
    using N0 by (simp add: literal_0_8_value fmul_def is_inf_def is_zero_def fval_def p)
  have "split_idx 1688849860263936 = py_int_of_float (round_double x)"
    by (simp only: split_idx_def fl mul sum.case)
  also have "\<dots> = Inr 1351079888211149" by (simp add: rx py_int_of_float_def)
  finally show ?thesis .
qed


section \<open>C3: sizes of the chronological split\<close>

lemma example_at_train:
  assumes "i < k"
  shows "example_at (train_part (int k) r) i = example_at r i"
proof -
  obtain X y dates where r: "r = (X, y, dates)" by (cases r)
  show ?thesis using assms
    by (simp add: r example_at_def train_part_def iloc_to_def series_to_def py_slice_to_def
        comp_def case_prod_beta)
qed

lemma examples_train:
  assumes "k \<le> nrows (fst r)"
  shows "examples (train_part (int k) r) = take k (examples r)"
proof -
  obtain X y dates where r: "r = (X, y, dates)" by (cases r)
  have n: "nrows (fst (train_part (int k) r)) = k"
    using assms by (simp add: r train_part_def iloc_to_def py_slice_to_def)
  have "take k (examples r) = map (example_at r) [0..<k]"
    using assms by (simp add: examples_def take_map min_def)
  also have "\<dots> = map (example_at (train_part (int k) r)) [0..<k]"
    by (rule map_cong) (simp_all add: example_at_train)
  finally show ?thesis by (simp add: examples_def n)
qed

lemma example_at_test:
  assumes "wf_dataset r" "k \<le> nrows (fst r)"
  shows "example_at (test_part (int k) r) i = example_at r (k + i)"
proof -
  obtain X y dates where r: "r = (X, y, dates)" by (cases r)
  have c: "\<And>p. p \<in> set (columns X) \<Longrightarrow> k \<le> length (svalues (snd p))"
    using assms by (auto simp: r wf_dataset_def list_all_iff)
  have l: "k \<le> length (svalues y)" "k \<le> length (svalues dates)"
    using assms by (auto simp: r wf_dataset_def)
  show ?thesis using c l
    by (simp add: r example_at_def test_part_def iloc_from_def series_from_def py_slice_from_def
        comp_def case_prod_beta)
qed

lemma examples_test:
  assumes "wf_dataset r" "k \<le> nrows (fst r)"
  shows "examples (test_part (int k) r) = drop k (examples r)"
proof -
  obtain X y dates where r: "r = (X, y, dates)" by (cases r)
  let ?n = "nrows (fst r)"
  have n: "nrows (fst (test_part (int k) r)) = ?n - k"
    by (simp add: r test_part_def iloc_from_def py_slice_from_def)
  have "drop k (examples r) = map (example_at r) [k..<?n]"
    by (simp add: examples_def drop_map)
  also have "[k..<?n] = map (\<lambda>i. k + i) [0..<?n - k]"
    using assms(2) by (simp add: map_add_upt add.commute)
  also have "map (example_at r) (map (\<lambda>i. k + i) [0..<?n - k])
             = map (example_at (test_part (int k) r)) [0..<?n - k]"
    by (simp add: example_at_test [OF assms] comp_def)
  finally show ?thesis by (simp add: examples_def n)
qed

lemma sample_dataset_wf: "wf_dataset (sample_dataset n)"
  by (simp add: sample_dataset_def wf_dataset_def)

lemma sample_dataset_nrows: "nrows (fst (sample_dataset n)) = n"
  by (simp add: sample_dataset_def)

lemma train_test_split_parts:
  assumes "split_idx (nrows X) = Inr (int k)" "k \<le> nrows X"
  shows "train_test_split (X, y, dates) =
     Inr \<lparr>X_train = \<lparr>nrows = k,
                       columns = map (\<lambda>(n, c). (n, c\<lparr>svalues := take k (svalues c)\<rparr>)) (columns X)\<rparr>,
          y_train = y\<lparr>svalues := take k (svalues y)\<rparr>,
          X_test = \<lparr>nrows = nrows X - k,
                      columns = map (\<lambda>(n, c). (n, c\<lparr>svalues := drop k (svalues c)\<rparr>)) (columns X)\<rparr>,
          y_test = y\<lparr>svalues := drop k (svalues y)\<rparr>,
          dates_test = dates\<lparr>svalues := drop k (svalues dates)\<rparr>\<rparr>"
  using assms
  by (simp add: train_test_split_def train_part_def test_part_def iloc_to_def iloc_from_def
      series_to_def series_from_def py_slice_to_def py_slice_from_def min_def)


lemma split_sizes_of_idx:
  assumes "wf_dataset (X, y, dates)" "split_idx (nrows X) = Inr (int k)" "k \<le> nrows X"
  shows "case train_test_split (X, y, dates) of
           Inl e \<Rightarrow> False
         | Inr s \<Rightarrow> nrows (X_train s) = k \<and> length (svalues (y_train s)) = k
                    \<and> nrows (X_test s) = nrows X - k
                    \<and> length (svalues (y_test s)) = nrows X - k"
  using assms(1,3) by (simp add: train_test_split_parts [OF assms(2,3)] wf_dataset_def)

text \<open>
  C3, as amended. \<open>split_idx = int(len(X) * 0.8)\<close> is computed in binary64. For every
  non-empty dataset of \<open>n < 2^50\<close> aligned examples it equals \<open>\<lfloor>0.8 n\<rfloor>\<close>, and the five
  slices returned by the split are pinned: \<open>X_train\<close> and \<open>y_train\<close> hold the first
  \<open>\<lfloor>0.8 n\<rfloor>\<close> rows of the features and of the targets, \<open>X_test\<close>, \<open>y_test\<close> and
  \<open>dates_test\<close> the remaining \<open>\<lceil>0.2 n\<rceil>\<close> rows of the features, the targets and the source
  dates. Read as examples, the training set is the first \<open>\<lfloor>0.8 n\<rfloor>\<close> examples of the
  dataset and the test set the remaining \<open>\<lceil>0.2 n\<rceil>\<close>. (The trainer keeps no training
  dates; the training examples are read with the first \<open>\<lfloor>0.8 n\<rfloor>\<close> source dates.) The
  witness is the scenario \<open>n = 37\<close>: 29 and 8.
\<close>

theorem chronological_split_sizes:
  assumes wf: "wf_dataset (X, y, dates)"
      and n0: "0 < nrows X" and n1: "nrows X < 2 ^ 50"
  shows "\<exists>k s. int k = \<lfloor>(8 / 10 :: rat) * of_nat (nrows X)\<rfloor>
           \<and> int (nrows X - k) = \<lceil>(2 / 10 :: rat) * of_nat (nrows X)\<rceil>
           \<and> train_test_split (X, y, dates) = Inr s
           \<and> X_train s = \<lparr>nrows = k,
                columns = map (\<lambda>(n, c). (n, c\<lparr>svalues := take k (svalues c)\<rparr>)) (columns X)\<rparr>
           \<and> y_train s = y\<lparr>svalues := take k (svalues y)\<rparr>
           \<and> X_test s = \<lparr>nrows = nrows X - k,
                columns = map (\<lambda>(n, c). (n, c\<lparr>svalues := drop k (svalues c)\<rparr>)) (columns X)\<rparr>
           \<and> y_test s = y\<lparr>svalues := drop k (svalues y)\<rparr>
           \<and> dates_test s = dates\<lparr>svalues := drop k (svalues dates)\<rparr>
           \<and> examples (X_train s, y_train s, dates\<lparr>svalues := take k (svalues dates)\<rparr>)
               = take k (examples (X, y, dates))
           \<and> examples (X_test s, y_test s, dates_test s) = drop k (examples (X, y, dates))
           \<and> length (examples (X_train s, y_train s, dates\<lparr>svalues := take k (svalues dates)\<rparr>)) = k
           \<and> length (examples (X_test s, y_test s, dates_test s)) = nrows X - k"
proof -
  let ?n = "nrows X"
  let ?k = "4 * ?n div 5"
  let ?r = "(X, y, dates)"
  have k: "split_idx ?n = Inr (int ?k)" by (rule split_idx_eq [OF n0 n1])
  have le: "?k \<le> ?n" by simp
  define q :: rat where "q = (8 / 10) * of_nat ?n"
  define p :: rat where "p = (2 / 10) * of_nat ?n"
  have flq: "\<lfloor>q\<rfloor> = int ?k"
  proof -
    have "q = of_int (int (4 * ?n)) / of_int 5" by (simp add: q_def)
    then have "\<lfloor>q\<rfloor> = \<lfloor>(of_int (int (4 * ?n)) :: rat) / of_int 5\<rfloor>"
      by (simp only:)
    also have "\<dots> = int (4 * ?n) div 5" by (rule floor_divide_of_int_eq)
    finally show ?thesis by (simp add: zdiv_int)
  qed
  have ceq: "\<lceil>p\<rceil> = int (?n - ?k)"
  proof -
    have "- p = q - of_int (int ?n)" by (simp add: p_def q_def)
    then have "\<lfloor>- p\<rfloor> = \<lfloor>q\<rfloor> - int ?n" by (simp only: floor_diff_of_int)
    then have "\<lceil>p\<rceil> = int ?n - int ?k" by (simp add: ceiling_def flq)
    then show ?thesis using le by simp
  qed
  have fl: "int ?k = \<lfloor>(8 / 10 :: rat) * of_nat ?n\<rfloor>"
    using flq unfolding q_def by (rule sym)
  have ce: "int (?n - ?k) = \<lceil>(2 / 10 :: rat) * of_nat ?n\<rceil>"
    using ceq unfolding p_def by (rule sym)
  define s where "s = \<lparr>X_train = \<lparr>nrows = ?k,
                       columns = map (\<lambda>(n, c). (n, c\<lparr>svalues := take ?k (svalues c)\<rparr>)) (columns X)\<rparr>,
          y_train = y\<lparr>svalues := take ?k (svalues y)\<rparr>,
          X_test = \<lparr>nrows = ?n - ?k,
                      columns = map (\<lambda>(n, c). (n, c\<lparr>svalues := drop ?k (svalues c)\<rparr>)) (columns X)\<rparr>,
          y_test = y\<lparr>svalues := drop ?k (svalues y)\<rparr>,
          dates_test = dates\<lparr>svalues := drop ?k (svalues dates)\<rparr>\<rparr>"
  have s: "train_test_split ?r = Inr s"
    unfolding s_def by (rule train_test_split_parts [OF k le])
  have trp: "(X_train s, y_train s, dates\<lparr>svalues := take ?k (svalues dates)\<rparr>) = train_part (int ?k) ?r"
    using le by (simp add: s_def train_part_def iloc_to_def series_to_def py_slice_to_def min_def)
  have tep: "(X_test s, y_test s, dates_test s) = test_part (int ?k) ?r"
    using le by (simp add: s_def test_part_def iloc_from_def series_from_def py_slice_from_def)
  have tr: "examples (X_train s, y_train s, dates\<lparr>svalues := take ?k (svalues dates)\<rparr>) = take ?k (examples ?r)"
    unfolding trp by (rule examples_train) (simp add: le)
  have te: "examples (X_test s, y_test s, dates_test s) = drop ?k (examples ?r)"
    unfolding tep by (rule examples_test [OF wf]) (simp add: le)
  have len: "length (examples ?r) = ?n" by (simp add: examples_def)
  have l1: "length (examples (X_train s, y_train s, dates\<lparr>svalues := take ?k (svalues dates)\<rparr>)) = ?k"
    using le by (simp only: tr length_take len min_def) simp
  have l2: "length (examples (X_test s, y_test s, dates_test s)) = ?n - ?k"
    by (simp only: te length_drop len)
  have c1: "X_train s = \<lparr>nrows = ?k,
                columns = map (\<lambda>(n, c). (n, c\<lparr>svalues := take ?k (svalues c)\<rparr>)) (columns X)\<rparr>"
    by (simp add: s_def)
  have c2: "y_train s = y\<lparr>svalues := take ?k (svalues y)\<rparr>" by (simp add: s_def)
  have c3: "X_test s = \<lparr>nrows = ?n - ?k,
                columns = map (\<lambda>(n, c). (n, c\<lparr>svalues := drop ?k (svalues c)\<rparr>)) (columns X)\<rparr>"
    by (simp add: s_def)
  have c4: "y_test s = y\<lparr>svalues := drop ?k (svalues y)\<rparr>" by (simp add: s_def)
  have c5: "dates_test s = dates\<lparr>svalues := drop ?k (svalues dates)\<rparr>" by (simp add: s_def)
  show ?thesis
    apply (rule exI [of _ "?k"])
    apply (rule exI [of _ s])
    apply (intro conjI)
    apply (rule fl)
    apply (rule ce)
    apply (rule s)
    apply (rule c1)
    apply (rule c2)
    apply (rule c3)
    apply (rule c4)
    apply (rule c5)
    apply (rule tr)
    apply (rule te)
    apply (rule l1)
    apply (rule l2)
    done
qed

text \<open>
  Without the bound on \<open>n\<close> the sizes differ: for \<open>n = 1688849860263936 = 3 * 2^49\<close> the
  product \<open>n * 0.8\<close> is \<open>1351079888211148.875\<close>, a tie between two doubles that rounds up
  to even, so \<open>split_idx = 1351079888211149\<close> rows go to the training set while
  \<open>\<lfloor>0.8 n\<rfloor> = 1351079888211148\<close>.
\<close>

theorem chronological_split_sizes_counterexample:
  "wf_dataset (sample_dataset 1688849860263936)
   \<and> nrows (fst (sample_dataset 1688849860263936)) = 1688849860263936
   \<and> \<lfloor>(8 / 10 :: rat) * of_nat (nrows (fst (sample_dataset 1688849860263936)))\<rfloor>
       = 1351079888211148
   \<and> (case train_test_split (sample_dataset 1688849860263936) of
        Inl e \<Rightarrow> False
      | Inr s \<Rightarrow> nrows (X_train s) = 1351079888211149
                 \<and> length (svalues (y_train s)) = 1351079888211149
                 \<and> nrows (X_test s) = 337769972052787
                 \<and> length (svalues (y_test s)) = 337769972052787)"
proof -
  define N :: nat where "N = 1688849860263936"
  define K :: nat where "K = 1351079888211149"
  obtain X y dates where r: "sample_dataset N = (X, y, dates)" by (cases "sample_dataset N")
  have wf: "wf_dataset (sample_dataset N)" by (rule sample_dataset_wf)
  have n: "nrows (fst (sample_dataset N)) = N" by (rule sample_dataset_nrows)
  have nX: "nrows X = N" using n by (simp only: r fst_conv)
  have f: "\<lfloor>(8 / 10 :: rat) * of_nat N\<rfloor> = 1351079888211148"
    unfolding N_def by (rule floor_unique) simp_all
  have k: "split_idx (nrows X) = Inr (int K)"
    unfolding nX N_def K_def using split_idx_large by simp
  have le: "K \<le> nrows X" unfolding nX N_def K_def by simp
  have d: "N - K = 337769972052787" unfolding N_def K_def by simp
  have c: "case train_test_split (sample_dataset N) of
        Inl e \<Rightarrow> False
      | Inr s \<Rightarrow> nrows (X_train s) = K \<and> length (svalues (y_train s)) = K
                 \<and> nrows (X_test s) = N - K \<and> length (svalues (y_test s)) = N - K"
    using split_sizes_of_idx [OF wf [unfolded r] k le] by (simp only: r nX)
  have f': "\<lfloor>(8 / 10 :: rat) * of_nat (nrows (fst (sample_dataset N)))\<rfloor> = 1351079888211148"
    by (simp only: n f)
  show ?thesis
    using wf n f' c unfolding d unfolding N_def K_def by (intro conjI)
qed

theorem chronological_split_sizes_witness:
  "wf_dataset (sample_dataset 37) \<and> nrows (fst (sample_dataset 37)) = 37
   \<and> \<lfloor>(8 / 10 :: rat) * 37\<rfloor> = 29 \<and> \<lceil>(2 / 10 :: rat) * 37\<rceil> = 8
   \<and> (case train_test_split (sample_dataset 37) of
        Inl e \<Rightarrow> False
      | Inr s \<Rightarrow> nrows (X_train s) = 29 \<and> length (svalues (y_train s)) = 29
                 \<and> nrows (X_test s) = 8 \<and> length (svalues (y_test s)) = 8
                 \<and> length (svalues (dates_test s)) = 8
                 \<and> svalues (y_test s) = drop 29 (svalues (fst (snd (sample_dataset 37))))
                 \<and> length (examples (X_test s, y_test s, dates_test s)) = 8
                 \<and> examples (X_test s, y_test s, dates_test s)
                     = drop 29 (examples (sample_dataset 37)))"
proof -
  obtain X y dates where r: "sample_dataset 37 = (X, y, dates)" by (cases "sample_dataset 37")
  have wf: "wf_dataset (sample_dataset 37)" by (rule sample_dataset_wf)
  have n: "nrows (fst (sample_dataset 37)) = 37" by (rule sample_dataset_nrows)
  have wf': "wf_dataset (X, y, dates)" using wf by (simp only: r)
  have nX: "nrows X = 37" using n by (simp only: r fst_conv)
  have ly: "length (svalues y) = 37" and ld: "length (svalues dates) = 37"
    using wf' by (simp_all only: wf_dataset_def prod.case nX)
  have n0: "0 < nrows X" and n1: "nrows X < 2 ^ 50" by (simp_all add: nX)
  have f: "\<lfloor>(8 / 10 :: rat) * 37\<rfloor> = 29" by (rule floor_unique) simp_all
  have c: "\<lceil>(2 / 10 :: rat) * 37\<rceil> = 8" by (rule ceiling_unique) simp_all
  from chronological_split_sizes [OF wf' n0 n1] obtain k s where
    kf: "int k = \<lfloor>(8 / 10 :: rat) * of_nat (nrows X)\<rfloor>"
    and s: "train_test_split (X, y, dates) = Inr s"
    and c1: "X_train s = \<lparr>nrows = k,
                columns = map (\<lambda>(n, c). (n, c\<lparr>svalues := take k (svalues c)\<rparr>)) (columns X)\<rparr>"
    and c2: "y_train s = y\<lparr>svalues := take k (svalues y)\<rparr>"
    and c3: "X_test s = \<lparr>nrows = nrows X - k,
                columns = map (\<lambda>(n, c). (n, c\<lparr>svalues := drop k (svalues c)\<rparr>)) (columns X)\<rparr>"
    and c4: "y_test s = y\<lparr>svalues := drop k (svalues y)\<rparr>"
    and c5: "dates_test s = dates\<lparr>svalues := drop k (svalues dates)\<rparr>"
    and te: "examples (X_test s, y_test s, dates_test s) = drop k (examples (X, y, dates))"
    and l2: "length (examples (X_test s, y_test s, dates_test s)) = nrows X - k"
    by blast
  have k29: "k = 29" using kf f by (simp add: nX)
  have "case train_test_split (sample_dataset 37) of
        Inl e \<Rightarrow> False
      | Inr s \<Rightarrow> nrows (X_train s) = 29 \<and> length (svalues (y_train s)) = 29
                 \<and> nrows (X_test s) = 8 \<and> length (svalues (y_test s)) = 8
                 \<and> length (svalues (dates_test s)) = 8
                 \<and> svalues (y_test s) = drop 29 (svalues (fst (snd (sample_dataset 37))))
                 \<and> length (examples (X_test s, y_test s, dates_test s)) = 8
                 \<and> examples (X_test s, y_test s, dates_test s)
                     = drop 29 (examples (sample_dataset 37))"
    using te l2 by (simp add: r s c1 c2 c3 c4 c5 k29 nX ly ld)
  with wf n f c show ?thesis by simp
qed


section \<open>C2: the feature columns of the builder\<close>

text \<open>
  C2. The builder excludes \<open>ref_date\<close> and the columns whose name starts with
  \<open>target_\<close> (the shifted target it has just added), not the designated target column:
  on a table with numeric \<open>housing_price_index_value\<close> and \<open>unemployment_rate\<close> the
  feature columns are both of them, the target column included.
\<close>

theorem build_keeps_target_as_feature:
  "map_sum id feature_names
     (build_supervised_dataset four_month_frame ''housing_price_index_value'' 1)
   = Inr [''housing_price_index_value'', ''unemployment_rate'']"
  by code_simp


section \<open>C4: the split never looks ahead\<close>

lemma chronological_keep: "sorted_wrt P xs \<Longrightarrow> sorted_wrt P (keep flags xs)"
proof (induction xs arbitrary: flags)
  case Nil
  then show ?case by (simp add: keep_def)
next
  case (Cons x xs)
  show ?case
  proof (cases flags)
    case Nil
    then show ?thesis by (simp add: keep_def)
  next
    case (Cons f fs)
    have s: "set (keep fs xs) \<subseteq> set xs"
      by (auto simp: keep_def dest: set_zip_rightD)
    have ih: "sorted_wrt P (keep fs xs)" using Cons.IH Cons.prems by simp
    have k: "keep flags (x # xs) = (if f then x # keep fs xs else keep fs xs)"
      by (simp add: Cons keep_def)
    show ?thesis using Cons.prems ih s by (auto simp: k)
  qed
qed

lemma sorted_wrt_all:
  "(\<And>x y. x \<in> set xs \<Longrightarrow> y \<in> set xs \<Longrightarrow> P x y) \<Longrightarrow> sorted_wrt P xs"
  by (induction xs) auto

lemma sorted_dates:
  "sorted_wrt (\<lambda>a b. \<not> earlier b a) (map (\<lambda>i. ds ! i) (argsort_dates ds))"
proof -
  let ?A = "sort_key (\<lambda>i. date_key (ds ! i)) (filter (\<lambda>i. \<not> isna (ds ! i)) [0..<length ds])"
  let ?B = "filter (\<lambda>i. isna (ds ! i)) [0..<length ds]"
  have a: "sorted (map (\<lambda>i. date_key (ds ! i)) ?A)" by (rule sorted_sort_key)
  have a': "sorted_wrt (\<lambda>a b. \<not> earlier b a) (map (\<lambda>i. ds ! i) ?A)"
  proof -
    have "sorted_wrt (\<lambda>i j. date_key (ds ! i) \<le> date_key (ds ! j)) ?A"
      using a by (simp add: sorted_map)
    then have "sorted_wrt (\<lambda>i j. \<not> earlier (ds ! j) (ds ! i)) ?A"
      by (rule sorted_wrt_mono_rel [rotated])
         (auto simp: earlier_def date_key_def split: cell.splits)
    then show ?thesis by (simp add: sorted_wrt_map)
  qed
  have nb: "\<And>x. x \<in> set (map (\<lambda>i. ds ! i) ?B) \<Longrightarrow> x = Null"
    by (auto simp: isna_def)
  have b: "sorted_wrt (\<lambda>a b. \<not> earlier b a) (map (\<lambda>i. ds ! i) ?B)"
  proof (rule sorted_wrt_all)
    fix x y assume "x \<in> set (map (\<lambda>i. ds ! i) ?B)" "y \<in> set (map (\<lambda>i. ds ! i) ?B)"
    then have "y = Null" using nb by blast
    then show "\<not> earlier y x" by (simp add: earlier_def)
  qed
  have c: "\<forall>x\<in>set (map (\<lambda>i. ds ! i) ?A). \<forall>y\<in>set (map (\<lambda>i. ds ! i) ?B). \<not> earlier y x"
  proof (intro ballI)
    fix x y assume "x \<in> set (map (\<lambda>i. ds ! i) ?A)" "y \<in> set (map (\<lambda>i. ds ! i) ?B)"
    then have "y = Null" using nb by blast
    then show "\<not> earlier y x" by (simp add: earlier_def)
  qed
  show ?thesis
    unfolding argsort_dates_def map_append sorted_wrt_append using a' b c by blast
qed

lemma getitem_reorder:
  "getitem (reorder idx df) n
   = (case map_of (columns df) n of None \<Rightarrow> Inl (KeyError n)
      | Some c \<Rightarrow> Inr (c\<lparr>svalues := map (\<lambda>i. svalues c ! i) idx\<rparr>))"
  by (simp add: reorder_def getitem_def map_of_map split: option.splits)

lemma fetch_dates_sorted:
  assumes "fetch_data_from_supabase to_datetime creds raw = Inr df"
  shows "\<exists>dcol. getitem df ''ref_date'' = Inr dcol
            \<and> sorted_wrt (\<lambda>a b. \<not> earlier b a) (svalues dcol)"
proof -
  from assms obtain texts where
    df: "df = reorder (argsort_dates (map (coerce_datetime to_datetime) texts))
               (setitem raw ''ref_date''
                  \<lparr>sdtype = Datetime, svalues = map (coerce_datetime to_datetime) texts\<rparr>)"
    by (auto simp: fetch_data_from_supabase_def Let_def split: if_splits sum.splits)
  show ?thesis
    unfolding df getitem_reorder
    by (simp add: setitem_def map_of_assign sorted_dates)
qed

lemma slices_append: "py_slice_to k xs @ py_slice_from k xs = xs"
  by (simp add: py_slice_to_def py_slice_from_def)

text \<open>
  C4. For the table as \<open>fetch_data_from_supabase\<close> returns it (sorted by \<open>ref_date\<close>, rows
  without a readable date last) and every horizon, no source date of the test part is
  earlier than a source date of the training part.
\<close>

theorem split_no_look_ahead:
  assumes f: "fetch_data_from_supabase to_datetime creds raw = Inr df"
      and b: "build_supervised_dataset df TARGET_COLUMN h = Inr r"
      and s: "train_test_split r = Inr s"
  shows "\<exists>k. split_idx (nrows (fst r)) = Inr k
           \<and> (\<forall>t \<in> set (svalues (dates_test s)).
                \<forall>d \<in> set (svalues (snd (snd (train_part k r)))). \<not> earlier t d)"
proof -
  from fetch_dates_sorted [OF f] obtain dcol where
    d: "getitem df ''ref_date'' = Inr dcol"
    and sd: "sorted_wrt (\<lambda>a b. \<not> earlier b a) (svalues dcol)" by blast
  from b obtain tcol where t: "getitem df TARGET_COLUMN = Inr tcol"
    by (cases "getitem df TARGET_COLUMN") (simp_all add: build_supervised_dataset_def Let_def)
  from build_result [OF t d, of h] b obtain X y dates where
    r: "r = (X, y, dates)"
    and ds: "svalues dates = keep (map (\<lambda>c. \<not> isna c) (shift (- h) (svalues tcol))) (svalues dcol)"
    by auto
  have sorted: "sorted_wrt (\<lambda>a b. \<not> earlier b a) (svalues dates)"
    unfolding ds by (rule chronological_keep [OF sd])
  from s obtain k where k: "split_idx (nrows (fst r)) = Inr k"
    and te: "dates_test s = snd (snd (test_part k r))"
    by (auto simp: train_test_split_def split: sum.splits)
  have tr: "svalues (snd (snd (train_part k r))) = py_slice_to k (svalues dates)"
    by (simp add: r train_part_def series_to_def)
  have te': "svalues (dates_test s) = py_slice_from k (svalues dates)"
    by (simp add: te r test_part_def series_from_def)
  have "sorted_wrt (\<lambda>a b. \<not> earlier b a)
          (py_slice_to k (svalues dates) @ py_slice_from k (svalues dates))"
    using sorted by (simp only: slices_append)
  then have "\<forall>d \<in> set (py_slice_to k (svalues dates)).
               \<forall>t \<in> set (py_slice_from k (svalues dates)). \<not> earlier t d"
    by (simp add: sorted_wrt_append)
  then show ?thesis using k tr te' by auto
qed

lemma sample_fetch: "fetch_data_from_supabase parse_year_month True raw_frame = Inr sorted_frame"
  by code_simp

lemma sample_build: "build_supervised_dataset sorted_frame TARGET_COLUMN 1 = Inr sorted_dataset"
  by code_simp

lemma sample_split_idx: "split_idx 5 = Inr 4"
  by code_simp

theorem split_no_look_ahead_witness:
  "fetch_data_from_supabase parse_year_month True raw_frame = Inr sorted_frame
   \<and> build_supervised_dataset sorted_frame TARGET_COLUMN 1 = Inr sorted_dataset
   \<and> split_idx (nrows (fst sorted_dataset)) = Inr 4
   \<and> svalues (snd (snd (train_part 4 sorted_dataset)))
       = [Date 24240, Date 24241, Date 24242, Date 24243]
   \<and> svalues (snd (snd (test_part 4 sorted_dataset))) = [Date 24244]
   \<and> \<not> earlier (Date 24244) (Date 24243)"
proof -
  have n: "nrows (fst sorted_dataset) = 5" by (simp add: sorted_dataset_def)
  have k: "split_idx (nrows (fst sorted_dataset)) = Inr 4" by (simp only: n sample_split_idx)
  obtain s where s: "train_test_split sorted_dataset = Inr s"
    and ts: "dates_test s = snd (snd (test_part 4 sorted_dataset))"
    by (simp add: train_test_split_def k)
  have tr: "svalues (snd (snd (train_part 4 sorted_dataset)))
       = [Date 24240, Date 24241, Date 24242, Date 24243]"
    by (simp add: sorted_dataset_def train_part_def series_to_def py_slice_to_def)
  have te: "svalues (snd (snd (test_part 4 sorted_dataset))) = [Date 24244]"
    by (simp add: sorted_dataset_def test_part_def series_from_def py_slice_from_def)
  from split_no_look_ahead [OF sample_fetch sample_build s] obtain k' where
    k': "split_idx (nrows (fst sorted_dataset)) = Inr k'"
    and a: "\<forall>t \<in> set (svalues (dates_test s)).
              \<forall>d \<in> set (svalues (snd (snd (train_part k' sorted_dataset)))). \<not> earlier t d"
    by blast
  have "k' = 4" using k k' by simp
  then have "\<not> earlier (Date 24244) (Date 24243)" using a by (simp add: ts te tr)
  then show ?thesis using sample_fetch sample_build k tr te by simp
qed


section \<open>C6: an unsupported horizon is rejected before any model is loaded\<close>

lemma horizons_text: "str_int_list HORIZONS = ''[1, 2, 3, 6, 12, 24, 36]''"
  by code_simp

text \<open>
  C6. When the \<open>horizon\<close> parameter parses to an integer outside
  \<open>{1, 2, 3, 6, 12, 24, 36}\<close>, the handler answers 400 with the invalid-horizon message,
  leaves the model cache as it was and touches no artifact file (empty trace).
\<close>

theorem invalid_horizon_rejected:
  assumes "map_of params ''horizon'' = Some (v, rest)"
      and "py_int v = Inr h"
      and "h \<notin> set HORIZONS"
  shows "do_GET e MODELS params =
           (\<lparr>status = 400,
             body = Error (Text ''Invalid horizon. Must be one of [1, 2, 3, 6, 12, 24, 36]'')\<rparr>,
            MODELS, [])"
  using assms
  by (simp add: do_GET_def get_horizon_def error_response_def horizons_text Let_def)


theorem invalid_horizon_rejected_witness:
  "py_int ''5'' = Inr 5 \<and> (5::int) \<notin> set HORIZONS
   \<and> do_GET sample_env [] [(''horizon'', (''5'', []))] =
       (\<lparr>status = 400,
         body = Error (Text ''Invalid horizon. Must be one of [1, 2, 3, 6, 12, 24, 36]'')\<rparr>,
        [], [])"
proof -
  have p: "py_int ''5'' = Inr 5" by code_simp
  have n: "(5::int) \<notin> set HORIZONS" by (simp add: HORIZONS_def)
  have m: "map_of [(''horizon'', (''5'', []))] ''horizon'' = Some (''5'', [])" by simp
  from invalid_horizon_rejected [OF m p n, of sample_env "[]"] p n show ?thesis by simp
qed


section \<open>C7: a supported horizon without artifact file is not found\<close>

lemma map_of_dict_set: "map_of (dict_set h m M) = (map_of M)(h \<mapsto> m)"
  by (induction M) (auto simp: fun_eq_iff)

lemma load_loop_consistent:
  assumes "\<And>h m. map_of M h = Some m \<Longrightarrow> model_files e h = Some m"
      and "map_of (fst (load_loop e hs M t)) h = Some m"
  shows "model_files e h = Some m"
  using assms
proof (induction hs arbitrary: M t)
  case Nil
  then show ?case by simp
next
  case (Cons a hs)
  show ?case
  proof (cases "model_files e a")
    case None
    with Cons.prems(2) have "map_of (fst (load_loop e hs M (t @ [Exists a]))) h = Some m"
      by simp
    from Cons.IH [OF Cons.prems(1) this] show ?thesis .
  next
    case (Some ma)
    with Cons.prems(2)
    have l: "map_of (fst (load_loop e hs (dict_set a ma M) (t @ [Exists a, Load a]))) h = Some m"
      by simp
    have inv: "\<And>h m. map_of (dict_set a ma M) h = Some m \<Longrightarrow> model_files e h = Some m"
      using Cons.prems(1) Some by (auto simp: map_of_dict_set split: if_splits)
    from Cons.IH [OF inv l] show ?thesis .
  qed
qed

lemma load_models_consistent:
  assumes "\<And>h m. map_of M h = Some m \<Longrightarrow> model_files e h = Some m"
      and "map_of (fst (load_models e M)) h = Some m"
  shows "model_files e h = Some m"
proof (cases "List.null M")
  case True
  then have "fst (load_models e M) = fst (load_loop e HORIZONS M [])"
    by (simp add: load_models_def)
  then show ?thesis using load_loop_consistent [OF assms(1)] assms(2) by simp
next
  case False
  then show ?thesis using assms by (simp add: load_models_def)
qed

lemma do_GET_cache:
  "fst (snd (do_GET e M params)) = M \<or> fst (snd (do_GET e M params)) = fst (load_models e M)"
  by (auto simp: do_GET_def Let_def split: sum.splits prod.splits option.splits)

lemma reachable_consistent:
  "reachable e M \<Longrightarrow> map_of M h = Some m \<Longrightarrow> model_files e h = Some m"
proof (induction arbitrary: h m rule: reachable.induct)
  case start
  then show ?case by simp
next
  case (request MODELS params r MODELS' trace)
  from do_GET_cache [of e MODELS params] request.hyps(2)
  have "MODELS' = MODELS \<or> MODELS' = fst (load_models e MODELS)" by simp
  then show ?case
  proof
    assume "MODELS' = MODELS"
    then show ?thesis using request.IH request.prems by simp
  next
    assume "MODELS' = fst (load_models e MODELS)"
    then show ?thesis
      using load_models_consistent [of MODELS e h m] request.IH request.prems by blast
  qed
qed

text \<open>
  C7. In every cache state the serving process can reach from the empty cache (the
  artifact directory does not change while it runs), a request for a supported horizon
  whose artifact file is absent is answered 404 with an error body, never a prediction.
\<close>

theorem missing_artifact_not_found:
  assumes r: "reachable e MODELS"
      and h: "get_horizon params = Inr h" "h \<in> set HORIZONS"
      and a: "model_files e h = None"
  shows "fst (do_GET e MODELS params) =
           \<lparr>status = 404,
             body = Error (Text (''Model for horizon '' @ str_int h @ '' not found''))\<rparr>"
proof -
  have "map_of (fst (load_models e MODELS)) h = None"
  proof (cases "map_of (fst (load_models e MODELS)) h")
    case None
    then show ?thesis .
  next
    case (Some m)
    have "model_files e h = Some m"
      by (rule load_models_consistent [OF _ Some]) (rule reachable_consistent [OF r])
    with a show ?thesis by simp
  qed
  moreover obtain ms tr where lm: "load_models e MODELS = (ms, tr)"
    by (cases "load_models e MODELS")
  ultimately have n: "map_of ms h = None" by simp
  show ?thesis using h n
    by (simp add: do_GET_def Let_def lm error_response_def)
qed

theorem missing_artifact_not_found_witness:
  "reachable sample_env (fst (snd (do_GET sample_env [] [])))
   \<and> get_horizon [(''horizon'', (''2'', []))] = Inr 2 \<and> (2::int) \<in> set HORIZONS
   \<and> model_files sample_env 2 = None
   \<and> fst (do_GET sample_env (fst (snd (do_GET sample_env [] []))) [(''horizon'', (''2'', []))])
       = \<lparr>status = 404, body = Error (Text ''Model for horizon 2 not found'')\<rparr>"
proof -
  let ?M = "fst (snd (do_GET sample_env [] []))"
  have "do_GET sample_env [] [] = (fst (do_GET sample_env [] []), ?M, snd (snd (do_GET sample_env [] [])))"
    by simp
  from reachable.request [OF reachable.start this] have r: "reachable sample_env ?M" .
  have h: "get_horizon [(''horizon'', (''2'', []))] = Inr 2" by code_simp
  have i: "(2::int) \<in> set HORIZONS" by (simp add: HORIZONS_def)
  have a: "model_files sample_env 2 = None" by (simp add: sample_env_def)
  have t: "str_int 2 = ''2''" by code_simp
  from missing_artifact_not_found [OF r h i a] r h i a show ?thesis by (simp add: t)
qed

section \<open>C9: requests while the table is empty\<close>

lemma empty_table_predict:
  assumes "table e = []"
  shows "predict_body e model h flag =
           Inl (ValueError (if credentials e then ''No data found in toronto_housing table''
                            else ''Missing Supabase credentials in environment variables''))"
  using assms by (simp add: predict_body_def fetch_latest_data_def)

lemma py_int_error: "py_int s = Inl x \<Longrightarrow> is_ValueError x"
  unfolding py_int_def Let_def is_ValueError_def
  by (cases "case strip s of [] \<Rightarrow> [] | c # cs \<Rightarrow> if c = CHR ''-'' \<or> c = CHR ''+'' then cs else strip s")
     (auto split: option.split_asm if_split_asm)

lemma get_horizon_error: "get_horizon params = Inl x \<Longrightarrow> is_ValueError x"
  by (auto simp: get_horizon_def split: option.splits dest: py_int_error)

text \<open>
  C9, as amended. While the table is empty every request is answered with an error, 400
  or 404, never with a prediction; a request that passes the horizon check and finds its
  model (credentials set) gets status 400 with the message of the \<open>ValueError\<close> raised by
  \<open>fetch_latest_data\<close>: the same status as an input-validation error.
\<close>

theorem empty_table_is_error:
  assumes "table e = []"
  shows "status (fst (do_GET e M params)) \<in> {400, 404}
         \<and> (\<forall>p. body (fst (do_GET e M params)) \<noteq> Success p)
         \<and> (\<forall>h m. get_horizon params = Inr h \<and> h \<in> set HORIZONS
                    \<and> map_of (fst (load_models e M)) h = Some m \<and> credentials e
               \<longrightarrow> fst (do_GET e M params) =
                     \<lparr>status = 400,
                       body = Error (StrOf (ValueError ''No data found in toronto_housing table''))\<rparr>)"
proof -
  obtain ms tr where lm: "load_models e M = (ms, tr)" by (cases "load_models e M")
  show ?thesis
  proof (cases "get_horizon params")
    case (Inl x)
    then show ?thesis
      using get_horizon_error [OF Inl]
      by (simp add: do_GET_def handle_exception_def error_response_def)
  next
    case (Inr h)
    show ?thesis
    proof (cases "h \<in> set HORIZONS")
      case False
      then show ?thesis using Inr by (simp add: do_GET_def error_response_def Let_def)
    next
      case True
      show ?thesis
      proof (cases "map_of ms h")
        case None
        then show ?thesis using Inr True lm
          by (simp add: do_GET_def error_response_def Let_def)
      next
        case (Some m)
        then show ?thesis using Inr True lm empty_table_predict [OF assms]
          by (simp add: do_GET_def error_response_def Let_def handle_exception_def
              is_ValueError_def)
      qed
    qed
  qed
qed

text \<open>
  The status is not distinct from that of an input-validation error: with an empty table
  the default request and a request for the unsupported horizon 5 both get 400.
\<close>

theorem empty_table_status_counterexample:
  "table empty_table_env = []
   \<and> fst (do_GET empty_table_env [] []) =
       \<lparr>status = 400,
         body = Error (StrOf (ValueError ''No data found in toronto_housing table''))\<rparr>
   \<and> status (fst (do_GET empty_table_env [] [(''horizon'', (''5'', []))])) = 400"
  by code_simp


theorem empty_table_is_error_witness:
  "table empty_table_env = [] \<and> get_horizon [] = Inr 1 \<and> (1::int) \<in> set HORIZONS
   \<and> credentials empty_table_env
   \<and> map_of (fst (load_models empty_table_env [])) 1 = Some sample_regressor
   \<and> status (fst (do_GET empty_table_env [] [])) = 400
   \<and> status (fst (do_GET empty_table_env [] [(''horizon'', (''2'', []))])) = 404"
proof -
  have t: "table empty_table_env = []" by (simp add: empty_table_env_def)
  have h: "get_horizon [] = Inr 1" by (simp add: get_horizon_def)
  have i: "(1::int) \<in> set HORIZONS" by (simp add: HORIZONS_def)
  have c: "credentials empty_table_env" by (simp add: empty_table_env_def sample_env_def)
  have m: "map_of (fst (load_models empty_table_env [])) 1 = Some sample_regressor"
    by (simp add: load_models_def HORIZONS_def empty_table_env_def sample_env_def)
  from empty_table_is_error [OF t, of "[]" "[]"] h i c m
  have "fst (do_GET empty_table_env [] []) =
          \<lparr>status = 400,
            body = Error (StrOf (ValueError ''No data found in toronto_housing table''))\<rparr>"
    by blast
  then have a: "status (fst (do_GET empty_table_env [] [])) = 400" by simp
  have b: "status (fst (do_GET empty_table_env [] [(''horizon'', (''2'', []))])) = 404"
    by code_simp
  show ?thesis using t h i c m a b by simp
qed


section \<open>C10: the include\_historical parameter\<close>

lemma lower_char_t: "lower_char c = CHR ''t'' \<longleftrightarrow> c = CHR ''t'' \<or> c = CHR ''T''"
  by (auto simp: lower_char_def)

lemma lower_char_r: "lower_char c = CHR ''r'' \<longleftrightarrow> c = CHR ''r'' \<or> c = CHR ''R''"
  by (auto simp: lower_char_def)

lemma lower_char_u: "lower_char c = CHR ''u'' \<longleftrightarrow> c = CHR ''u'' \<or> c = CHR ''U''"
  by (auto simp: lower_char_def)

lemma lower_char_e: "lower_char c = CHR ''e'' \<longleftrightarrow> c = CHR ''e'' \<or> c = CHR ''E''"
  by (auto simp: lower_char_def)

lemma py_lower_true: "py_lower v = ''true'' \<longleftrightarrow> is_true_ignoring_case v"
proof -
  have "py_lower v = ''true'' \<longleftrightarrow>
          (\<exists>a b c d. v = [a, b, c, d] \<and> lower_char a = CHR ''t'' \<and> lower_char b = CHR ''r''
                      \<and> lower_char c = CHR ''u'' \<and> lower_char d = CHR ''e'')"
    by (auto simp: py_lower_def map_eq_Cons_conv)
  also have "\<dots> \<longleftrightarrow> is_true_ignoring_case v"
    unfolding lower_char_t lower_char_r lower_char_u lower_char_e
    by (auto simp: is_true_ignoring_case_def split: list.splits)
  finally show ?thesis .
qed

lemma include_historical_iff:
  "get_include_historical params =
     (case map_of params ''include_historical'' of
        None \<Rightarrow> False | Some (v, rest) \<Rightarrow> is_true_ignoring_case v)"
proof (cases "map_of params ''include_historical''")
  case None
  have "py_lower ''false'' \<noteq> ''true''" by (simp add: py_lower_def lower_char_def)
  then show ?thesis using None by (simp add: get_include_historical_def)
next
  case (Some p)
  then show ?thesis
    by (cases p) (simp add: get_include_historical_def py_lower_true)
qed

lemma row_get_error: "row_get row k = Inl x \<Longrightarrow> \<not> is_ValueError x"
  by (auto simp: row_get_def is_ValueError_def split: option.splits)

lemma historical_pairs_error: "historical_pairs rows = Inl x \<Longrightarrow> \<not> is_ValueError x"
proof (induction rows)
  case Nil
  then show ?case by simp
next
  case (Cons row rows)
  then show ?case
    by (auto split: sum.splits dest: row_get_error)
qed

lemma fetch_historical_error: "fetch_historical_data e n = Inl x \<Longrightarrow> \<not> is_ValueError x"
  by (auto simp: fetch_historical_data_def Let_def split: if_splits dest: historical_pairs_error)

lemma predict_body_True:
  "predict_body e m h True =
     (case predict_body e m h False of
        Inl x \<Rightarrow> Inl x
      | Inr data \<Rightarrow>
          (case fetch_historical_data e 12 of
             Inl x \<Rightarrow> Inl x
           | Inr hist \<Rightarrow> Inr (data\<lparr>historical := Some hist\<rparr>)))"
  unfolding predict_body_def Let_def
  by (simp split: sum.split cell.split)

lemma predict_body_False_historical:
  "predict_body e m h False = Inr data \<Longrightarrow> historical data = None"
  unfolding predict_body_def Let_def
  by (auto split: sum.splits cell.splits)

lemma do_GET_response:
  "fst (do_GET e M params) =
     (case get_horizon params of
        Inl x \<Rightarrow> handle_exception x
      | Inr h \<Rightarrow>
          if h \<notin> set HORIZONS then
            error_response 400 (Text (''Invalid horizon. Must be one of '' @ str_int_list HORIZONS))
          else
            (case map_of (fst (load_models e M)) h of
               None \<Rightarrow> error_response 404
                         (Text (''Model for horizon '' @ str_int h @ '' not found''))
             | Some model \<Rightarrow>
                 (case predict_body e model h (get_include_historical params) of
                    Inl x \<Rightarrow> handle_exception x
                  | Inr data \<Rightarrow> \<lparr>status = 200, body = Success data\<rparr>)))"
  unfolding do_GET_def Let_def
  by (simp split: sum.split prod.split option.split)

lemma predict_status_400:
  "status (case predict_body e m h f of
             Inl x \<Rightarrow> handle_exception x
           | Inr data \<Rightarrow> \<lparr>status = 200, body = Success data\<rparr>) = 400
   \<longleftrightarrow> (\<exists>x. predict_body e m h False = Inl x \<and> is_ValueError x)"
proof (cases f)
  case False
  then show ?thesis
    by (auto simp: handle_exception_def error_response_def split: sum.splits)
next
  case True
  show ?thesis
  proof (cases "predict_body e m h False")
    case (Inl x)
    then show ?thesis using True
      by (auto simp: predict_body_True handle_exception_def error_response_def)
  next
    case (Inr data)
    then show ?thesis using True
      by (auto simp: predict_body_True handle_exception_def error_response_def
          split: sum.splits dest: fetch_historical_error)
  qed
qed

lemma get_horizon_cong:
  "map_of params ''horizon'' = map_of params' ''horizon'' \<Longrightarrow> get_horizon params = get_horizon params'"
  by (simp add: get_horizon_def)

lemma status_400_independent:
  assumes "map_of params ''horizon'' = map_of params' ''horizon''"
  shows "status (fst (do_GET e M params)) = 400 \<longleftrightarrow> status (fst (do_GET e M params')) = 400"
proof -
  have g: "get_horizon params = get_horizon params'" by (rule get_horizon_cong [OF assms])
  show ?thesis
  proof (cases "get_horizon params'")
    case (Inl x)
    then show ?thesis using g by (simp add: do_GET_response)
  next
    case (Inr h)
    show ?thesis
    proof (cases "h \<in> set HORIZONS")
      case False
      then show ?thesis using g Inr by (simp add: do_GET_response)
    next
      case True
      show ?thesis
      proof (cases "map_of (fst (load_models e M)) h")
        case None
        then show ?thesis using g Inr True by (simp add: do_GET_response)
      next
        case (Some m)
        then show ?thesis using g Inr True
          by (simp add: do_GET_response predict_status_400)
      qed
    qed
  qed
qed

lemma success_historical:
  assumes "fst (do_GET e M params) = \<lparr>status = s, body = Success data\<rparr>"
  shows "historical data \<noteq> None \<longleftrightarrow> get_include_historical params"
proof -
  from assms obtain h m where
    p: "predict_body e m h (get_include_historical params) = Inr data"
    by (auto simp: do_GET_response handle_exception_def error_response_def
        split: sum.splits if_splits option.splits)
  show ?thesis
  proof (cases "get_include_historical params")
    case False
    then show ?thesis using p predict_body_False_historical by auto
  next
    case True
    then show ?thesis using p
      by (auto simp: predict_body_True split: sum.splits)
  qed
qed

text \<open>
  C10. The flag is true exactly when the first value of \<open>include_historical\<close> is
  \<open>true\<close> in any mix of cases, and false for an absent or any other value. Its value
  never decides whether a request is answered 400: two queries with the same
  \<open>horizon\<close> parameter are both answered 400 or both not. In a success body the
  historical series is present exactly when the flag is true.
\<close>

theorem include_historical_flag:
  "get_include_historical params =
     (case map_of params ''include_historical'' of
        None \<Rightarrow> False | Some (v, rest) \<Rightarrow> is_true_ignoring_case v)
   \<and> (map_of params ''horizon'' = map_of params' ''horizon'' \<longrightarrow>
        (status (fst (do_GET e M params)) = 400 \<longleftrightarrow> status (fst (do_GET e M params')) = 400))
   \<and> (fst (do_GET e M params) = \<lparr>status = s, body = Success data\<rparr> \<longrightarrow>
        (historical data \<noteq> None \<longleftrightarrow> get_include_historical params))"
  using include_historical_iff [of params] status_400_independent [of params params' e M]
    success_historical [of e M params s data]
  by blast

theorem include_historical_flag_witness:
  "get_include_historical [(''include_historical'', (''TrUe'', []))]
   \<and> \<not> get_include_historical [(''include_historical'', (''yes'', []))]
   \<and> \<not> get_include_historical []
   \<and> status (fst (do_GET sample_env [] [(''include_historical'', (''yes'', []))])) = 200
   \<and> status (fst (do_GET sample_env [] [(''include_historical'', (''TrUe'', []))])) \<noteq> 400"
proof -
  let ?p = "[(''include_historical'', (''TrUe'', []))] :: query"
  let ?q = "[(''include_historical'', (''yes'', []))] :: query"
  have t: "is_true_ignoring_case ''TrUe''" by (simp add: is_true_ignoring_case_def)
  have y: "\<not> is_true_ignoring_case ''yes''" by (simp add: is_true_ignoring_case_def)
  have a: "get_include_historical ?p"
    using include_historical_flag [of ?p ?q sample_env "[]"] t by simp
  have b: "\<not> get_include_historical ?q"
    using include_historical_flag [of ?q ?p sample_env "[]"] y by simp
  have c: "\<not> get_include_historical []"
    using include_historical_flag [of "[]" ?p sample_env "[]"] by simp
  have s: "status (fst (do_GET sample_env [] ?q)) = 200" by code_simp
  have "status (fst (do_GET sample_env [] ?p)) = 400
        \<longleftrightarrow> status (fst (do_GET sample_env [] ?q)) = 400"
    using include_historical_flag [of ?p ?q sample_env "[]"] by simp
  then have d: "status (fst (do_GET sample_env [] ?p)) \<noteq> 400" using s by simp
  show ?thesis using a b c s d by simp
qed



section \<open>C8: a current value of zero\<close>

lemma fdiv_zero: "fdiv d (Fin 0) \<in> {PInf, NInf, NaN}"
  by (cases d) (auto simp: fdiv_def is_inf_def is_zero_def signed_inf_def)

lemma fmul_special: "x \<in> {PInf, NInf, NaN} \<Longrightarrow> fmul x (Fin 100) \<in> {PInf, NInf, NaN}"
  by (auto simp: fmul_def is_inf_def is_zero_def signed_inf_def)

lemma pct_change_zero: "pct_change p (Fin 0) \<in> {PInf, NInf, NaN}"
  unfolding pct_change_def by (rule fmul_special [OF fdiv_zero])

lemma getitem_frame_of_row:
  "getitem (frame_of_rows (row # rest)) k =
     (case map_of row k of
        None \<Rightarrow> Inl (KeyError k)
      | Some v \<Rightarrow> Inr \<lparr>sdtype = (case v of Num _ \<Rightarrow> Number | _ \<Rightarrow> Object), svalues = [v]\<rparr>)"
  by (simp add: frame_of_rows_def getitem_def map_of_map split: option.splits)

lemma fetch_latest_row:
  "table e = row # rest \<Longrightarrow> credentials e \<Longrightarrow> fetch_latest_data e = Inr (frame_of_rows [row])"
  by (simp add: fetch_latest_data_def Let_def)

lemma predict_body_value:
  assumes "table e = row # rest" "credentials e"
      and "map_of row ''housing_price_index_value'' = Some (Num c)"
      and "map_of row ''ref_date'' = Some d"
      and "m (latest_features (frame_of_rows [row])) = Inr p"
  shows "predict_body e m h False =
           Inr \<lparr>horizon_months = h, current_hpi = Fin c, predicted_hpi = p,
                percentage_change = pct_change p (Fin c), ref_date = d, historical = None\<rparr>"
  using assms
  by (simp add: predict_body_def fetch_latest_row getitem_frame_of_row Let_def)

text \<open>
  C8, as amended. The division by the current value is not guarded. When the most recent
  row has current value zero and the request reaches the computation (credentials set,
  supported horizon with a loaded model that returns a prediction, \<open>ref_date\<close> present),
  the computation raises nothing: \<open>percentage_change\<close> is \<open>+inf\<close>, \<open>-inf\<close> or \<open>nan\<close>.
  Without \<open>include_historical\<close> the service answers 200 with that value in the body; with
  \<open>include_historical\<close> it answers 200 with that value and the historical series, unless
  the historical query itself raises, which is then the error reported.
\<close>

theorem zero_current_value_not_guarded:
  assumes "table e = row # rest" "credentials e"
      and "map_of row ''housing_price_index_value'' = Some (Num 0)"
      and "map_of row ''ref_date'' = Some d"
      and "get_horizon params = Inr h" "h \<in> set HORIZONS"
      and "map_of (fst (load_models e M)) h = Some m"
      and "m (latest_features (frame_of_rows [row])) = Inr p"
  shows "pct_change p (Fin 0) \<in> {PInf, NInf, NaN}
         \<and> fst (do_GET e M params) =
             (if get_include_historical params then
                (case fetch_historical_data e 12 of
                   Inl x \<Rightarrow> handle_exception x
                 | Inr hist \<Rightarrow>
                     \<lparr>status = 200,
                       body = Success \<lparr>horizon_months = h, current_hpi = Fin 0,
                                       predicted_hpi = p,
                                       percentage_change = pct_change p (Fin 0),
                                       ref_date = d, historical = Some hist\<rparr>\<rparr>)
              else
                \<lparr>status = 200,
                  body = Success \<lparr>horizon_months = h, current_hpi = Fin 0, predicted_hpi = p,
                                  percentage_change = pct_change p (Fin 0), ref_date = d,
                                  historical = None\<rparr>\<rparr>)"
proof -
  have b: "predict_body e m h False =
           Inr \<lparr>horizon_months = h, current_hpi = Fin 0, predicted_hpi = p,
                percentage_change = pct_change p (Fin 0), ref_date = d, historical = None\<rparr>"
    using predict_body_value [of e row rest 0 d m p h] assms(1,2,3,4,8) by simp
  have r: "fst (do_GET e M params) =
             (case predict_body e m h (get_include_historical params) of
                Inl x \<Rightarrow> handle_exception x
              | Inr data \<Rightarrow> \<lparr>status = 200, body = Success data\<rparr>)"
    using assms(5,6,7) by (simp add: do_GET_response)
  have z: "pct_change p (Fin 0) \<in> {PInf, NInf, NaN}" by (rule pct_change_zero)
  show ?thesis
  proof (cases "get_include_historical params")
    case True
    have "fst (do_GET e M params) =
            (case fetch_historical_data e 12 of
                   Inl x \<Rightarrow> handle_exception x
                 | Inr hist \<Rightarrow>
                     \<lparr>status = 200,
                       body = Success \<lparr>horizon_months = h, current_hpi = Fin 0,
                                       predicted_hpi = p,
                                       percentage_change = pct_change p (Fin 0),
                                       ref_date = d, historical = Some hist\<rparr>\<rparr>)"
      unfolding r by (simp add: True predict_body_True b split: sum.split)
    then show ?thesis using True z by (simp only: if_True simp_thms)
  next
    case False
    have "fst (do_GET e M params) =
            \<lparr>status = 200,
                  body = Success \<lparr>horizon_months = h, current_hpi = Fin 0, predicted_hpi = p,
                                  percentage_change = pct_change p (Fin 0), ref_date = d,
                                  historical = None\<rparr>\<rparr>"
      unfolding r by (simp add: False b)
    then show ?thesis using False z by (simp only: if_False simp_thms)
  qed
qed


text \<open>
  With current value 0 and prediction 160.5 the answer is a success body whose
  \<open>percentage_change\<close> is \<open>+inf\<close>, not a computation error.
\<close>

theorem zero_current_value_counterexample:
  "fst (do_GET zero_value_env [] []) =
     \<lparr>status = 200,
       body = Success \<lparr>horizon_months = 1, current_hpi = Fin 0, predicted_hpi = Fin (321 / 2),
                       percentage_change = PInf, ref_date = Str ''2024-06'',
                       historical = None\<rparr>\<rparr>"
  by code_simp

theorem zero_current_value_not_guarded_witness:
  "table zero_value_env =
     [(''ref_date'', Str ''2024-06''), (''housing_price_index_value'', Num 0),
      (''unemployment_rate'', Num 6)] # []
   \<and> credentials zero_value_env \<and> get_horizon [] = Inr 1 \<and> (1::int) \<in> set HORIZONS
   \<and> pct_change (Fin (321 / 2)) (Fin 0) = PInf
   \<and> fst (do_GET zero_value_env [] []) =
       \<lparr>status = 200,
         body = Success \<lparr>horizon_months = 1, current_hpi = Fin 0, predicted_hpi = Fin (321 / 2),
                         percentage_change = PInf, ref_date = Str ''2024-06'',
                         historical = None\<rparr>\<rparr>
   \<and> fst (do_GET zero_value_env [] [(''include_historical'', (''True'', []))]) =
       \<lparr>status = 200,
         body = Success \<lparr>horizon_months = 1, current_hpi = Fin 0, predicted_hpi = Fin (321 / 2),
                         percentage_change = PInf, ref_date = Str ''2024-06'',
                         historical = Some [(Str ''2024-06'', Num 0)]\<rparr>\<rparr>"
proof -
  let ?row = "[(''ref_date'', Str ''2024-06''), (''housing_price_index_value'', Num 0),
               (''unemployment_rate'', Num 6)]"
  let ?q = "[(''include_historical'', (''True'', []))]"
  have t: "table zero_value_env = ?row # []" by (simp add: zero_value_env_def)
  have c: "credentials zero_value_env" by (simp add: zero_value_env_def sample_env_def)
  have v: "map_of ?row ''housing_price_index_value'' = Some (Num 0)" by simp
  have d: "map_of ?row ''ref_date'' = Some (Str ''2024-06'')" by simp
  have h: "get_horizon [] = Inr 1" by (simp add: get_horizon_def)
  have h': "get_horizon ?q = Inr 1" by (simp add: get_horizon_def)
  have i: "(1::int) \<in> set HORIZONS" by (simp add: HORIZONS_def)
  have m: "map_of (fst (load_models zero_value_env [])) 1 = Some sample_regressor"
    by (simp add: load_models_def HORIZONS_def zero_value_env_def sample_env_def)
  have p: "sample_regressor (latest_features (frame_of_rows [?row])) = Inr (Fin (321 / 2))"
    by (simp add: sample_regressor_def)
  have f: "\<not> get_include_historical []"
    by (simp add: include_historical_iff)
  have f': "get_include_historical ?q" by code_simp
  have g: "fetch_historical_data zero_value_env 12 = Inr [(Str ''2024-06'', Num 0)]"
    by (simp add: fetch_historical_data_def t row_get_def)
  have q: "pct_change (Fin (321 / 2)) (Fin 0) = PInf" by code_simp
  from zero_current_value_not_guarded [OF t c v d h i m p]
  have a: "fst (do_GET zero_value_env [] []) =
       \<lparr>status = 200,
         body = Success \<lparr>horizon_months = 1, current_hpi = Fin 0, predicted_hpi = Fin (321 / 2),
                         percentage_change = PInf, ref_date = Str ''2024-06'',
                         historical = None\<rparr>\<rparr>"
    by (simp only: f q if_False)
  from zero_current_value_not_guarded [OF t c v d h' i m p]
  have b: "fst (do_GET zero_value_env [] ?q) =
       \<lparr>status = 200,
         body = Success \<lparr>horizon_months = 1, current_hpi = Fin 0, predicted_hpi = Fin (321 / 2),
                         percentage_change = PInf, ref_date = Str ''2024-06'',
                         historical = Some [(Str ''2024-06'', Num 0)]\<rparr>\<rparr>"
    by (simp only: f' q g if_True sum.case)
  show ?thesis using t c h i q a b by (intro conjI)
qed


section \<open>C5: the percentage change against the prediction\<close>

lemma finite_cases: "is_finite a \<longleftrightarrow> a \<noteq> NaN \<and> \<not> is_inf a"
  by (cases a) (simp_all add: is_finite_def is_inf_def)

lemma fval_zero: "is_zero a \<Longrightarrow> fval a = 0"
  by (auto simp: is_zero_def fval_def)

lemma signed_zero_val: "fval (signed_zero b) = 0" "is_finite (signed_zero b)"
  by (simp_all add: signed_zero_def fval_def is_finite_def)

lemma signed_inf_not_finite: "\<not> is_finite (signed_inf b)"
  by (simp add: signed_inf_def is_finite_def)

lemma nan_not_finite: "\<not> is_finite NaN"
  by (simp add: is_finite_def)

lemma fsub_finite:
  assumes "is_finite (fsub a b)"
  shows "is_finite a \<and> is_finite b
         \<and> \<bar>fval (fsub a b) - (fval a - fval b)\<bar> \<le> \<bar>fval a - fval b\<bar> / 2 ^ 53 + 1 / 2 ^ 1075"
proof -
  have na: "a \<noteq> NaN" "b \<noteq> NaN"
    using assms by (auto simp: fsub_def is_finite_def)
  have ia: "\<not> is_inf a"
    using assms na by (auto simp: fsub_def is_finite_def is_inf_def split: if_splits)
  have ib: "\<not> is_inf b"
    using assms na ia by (auto simp: fsub_def signed_inf_not_finite split: if_splits)
  have fin: "is_finite a" "is_finite b" using na ia ib by (simp_all add: finite_cases)
  show ?thesis
  proof (cases "is_zero a \<and> is_zero b")
    case True
    then have "fval (fsub a b) = 0"
      using na ia ib by (auto simp: fsub_def fval_def)
    then show ?thesis using True fin by (simp add: fval_zero)
  next
    case False
    then have e: "fsub a b = round_double (fval a - fval b)"
      using na ia ib by (auto simp: fsub_def)
    show ?thesis using round_double_error [of "fval a - fval b"] assms fin
      by (simp add: e)
  qed
qed

lemma fdiv_finite:
  assumes "is_finite (fdiv a (Fin c))" "c \<noteq> 0"
  shows "is_finite a
         \<and> \<bar>fval (fdiv a (Fin c)) - fval a / c\<bar> \<le> \<bar>fval a / c\<bar> / 2 ^ 53 + 1 / 2 ^ 1075"
proof -
  have b: "Fin c \<noteq> NaN" "\<not> is_inf (Fin c)" "\<not> is_zero (Fin c)" "fval (Fin c) = c"
    using assms(2) by (simp_all add: is_inf_def is_zero_def fval_def)
  have na: "a \<noteq> NaN" using assms by (auto simp: fdiv_def is_finite_def)
  have ia: "\<not> is_inf a"
    using assms na b by (auto simp: fdiv_def signed_inf_not_finite nan_not_finite split: if_splits)
  have fin: "is_finite a" using na ia by (simp add: finite_cases)
  show ?thesis
  proof (cases "is_zero a")
    case True
    then have "fdiv a (Fin c) = signed_zero (signbit a \<noteq> signbit (Fin c))"
      using na ia b by (simp add: fdiv_def)
    then show ?thesis using True fin by (simp add: signed_zero_val fval_zero)
  next
    case False
    then have e: "fdiv a (Fin c) = round_double (fval a / c)"
      using na ia b by (simp add: fdiv_def)
    show ?thesis using round_double_error [of "fval a / c"] assms fin
      by (simp add: e)
  qed
qed

lemma fmul_finite:
  assumes "is_finite (fmul a (Fin 100))"
  shows "is_finite a
         \<and> \<bar>fval (fmul a (Fin 100)) - fval a * 100\<bar> \<le> \<bar>fval a * 100\<bar> / 2 ^ 53 + 1 / 2 ^ 1075"
proof -
  have b: "Fin 100 \<noteq> NaN" "\<not> is_inf (Fin 100)" "\<not> is_zero (Fin 100)" "fval (Fin 100) = 100"
    by (simp_all add: is_inf_def is_zero_def fval_def)
  have na: "a \<noteq> NaN" using assms by (auto simp: fmul_def is_finite_def)
  have ia: "\<not> is_inf a"
    using assms na b by (auto simp: fmul_def signed_inf_not_finite nan_not_finite split: if_splits)
  have fin: "is_finite a" using na ia by (simp add: finite_cases)
  show ?thesis
  proof (cases "is_zero a")
    case True
    then have "fmul a (Fin 100) = signed_zero (signbit a \<noteq> signbit (Fin 100))"
      using na ia b by (simp add: fmul_def)
    then show ?thesis using True fin by (simp add: signed_zero_val fval_zero)
  next
    case False
    then have e: "fmul a (Fin 100) = round_double (fval a * 100)"
      using na ia b by (simp add: fmul_def)
    show ?thesis using round_double_error [of "fval a * 100"] assms fin
      by (simp add: e)
  qed
qed



lemma pct_error_arith:
  fixes a c d q1 q eta :: rat
  assumes c0: "c \<noteq> 0" and eta0: "0 \<le> eta"
      and e1: "\<bar>d - a\<bar> \<le> \<bar>a\<bar> / 2 ^ 53 + eta"
      and e2: "\<bar>q1 - d / c\<bar> \<le> \<bar>d / c\<bar> / 2 ^ 53 + eta"
      and e3: "\<bar>q - q1 * 100\<bar> \<le> \<bar>q1 * 100\<bar> / 2 ^ 53 + eta"
  shows "\<bar>c * (q / 100) - a\<bar> \<le> \<bar>a\<bar> / 2 ^ 51 + 4 * ((1 + \<bar>c\<bar>) * eta)"
proof -
  define C where "C = \<bar>c\<bar>"
  define ce where "ce = C * eta"
  have C0: "0 < C" using c0 by (simp add: C_def)
  have ce0: "0 \<le> ce" using C0 eta0 by (simp add: ce_def)
  have x2: "\<bar>c * q1 - d\<bar> \<le> \<bar>d\<bar> / 2 ^ 53 + ce"
  proof -
    have "c * q1 - d = c * (q1 - d / c)" using c0 by (simp add: field_simps)
    then have "\<bar>c * q1 - d\<bar> = C * \<bar>q1 - d / c\<bar>" by (simp only: abs_mult C_def)
    also have "\<dots> \<le> C * (\<bar>d / c\<bar> / 2 ^ 53 + eta)"
      using e2 C0 by (simp add: mult_left_mono)
    also have "\<dots> = \<bar>d\<bar> / 2 ^ 53 + ce"
      using c0 by (simp add: C_def ce_def field_simps)
    finally show ?thesis .
  qed
  have x3: "\<bar>c * (q / 100) - c * q1\<bar> \<le> \<bar>c * q1\<bar> / 2 ^ 53 + ce / 100"
  proof -
    have "c * (q / 100) - c * q1 = (c / 100) * (q - q1 * 100)" by (simp add: field_simps)
    then have "\<bar>c * (q / 100) - c * q1\<bar> = \<bar>c / 100\<bar> * \<bar>q - q1 * 100\<bar>"
      by (simp only: abs_mult)
    also have "\<bar>c / 100\<bar> = C / 100" by (simp add: C_def)
    finally have "\<bar>c * (q / 100) - c * q1\<bar> = (C / 100) * \<bar>q - q1 * 100\<bar>" .
    also have "\<dots> \<le> (C / 100) * (\<bar>q1 * 100\<bar> / 2 ^ 53 + eta)"
      using e3 C0 by (simp add: mult_left_mono)
    also have "\<dots> = \<bar>c * q1\<bar> / 2 ^ 53 + ce / 100"
      by (simp add: C_def ce_def abs_mult field_simps)
    finally show ?thesis .
  qed
  define A where "A = \<bar>a\<bar>"
  define D where "D = \<bar>d\<bar>"
  define Q where "Q = \<bar>c * q1\<bar>"
  define x where "x = \<bar>d - a\<bar>"
  define y where "y = \<bar>c * q1 - d\<bar>"
  define z where "z = \<bar>c * (q / 100) - c * q1\<bar>"
  have A0: "0 \<le> A" by (simp add: A_def)
  have f1: "x \<le> A / 2 ^ 53 + eta" using e1 by (simp add: x_def A_def)
  have f2: "y \<le> D / 2 ^ 53 + ce" using x2 by (simp add: y_def D_def)
  have f3: "z \<le> Q / 2 ^ 53 + ce / 100" using x3 by (simp add: z_def Q_def)
  have g1: "D \<le> A + x" unfolding D_def A_def x_def by linarith
  have g2: "Q \<le> D + y" unfolding Q_def D_def y_def by linarith
  have tri: "\<bar>c * (q / 100) - a\<bar> \<le> x + y + z" unfolding x_def y_def z_def by linarith
  have "x + y + z \<le> A / 2 ^ 51 + 4 * (eta + ce)"
    using f1 f2 f3 g1 g2 A0 eta0 ce0 by simp
  also have "eta + ce = (1 + \<bar>c\<bar>) * eta" by (simp add: ce_def C_def algebra_simps)
  finally have "x + y + z \<le> \<bar>a\<bar> / 2 ^ 51 + 4 * ((1 + \<bar>c\<bar>) * eta)"
    unfolding A_def .
  with tri show ?thesis by (rule order_trans)
qed

lemma pct_change_error:
  assumes fin: "is_finite (pct_change P (Fin c))" and c0: "c \<noteq> 0"
  shows "is_finite P
         \<and> \<bar>c * (1 + fval (pct_change P (Fin c)) / 100) - fval P\<bar>
             \<le> \<bar>fval P - c\<bar> / 2 ^ 51 + (1 + \<bar>c\<bar>) / 2 ^ 1073"
proof -
  let ?d = "fsub P (Fin c)"
  let ?q1 = "fdiv ?d (Fin c)"
  let ?q = "fmul ?q1 (Fin 100)"
  have q: "pct_change P (Fin c) = ?q" by (simp add: pct_change_def)
  from fin have fq: "is_finite ?q" by (simp only: q)
  from fmul_finite [OF fq] have f1: "is_finite ?q1"
    and e3: "\<bar>fval ?q - fval ?q1 * 100\<bar> \<le> \<bar>fval ?q1 * 100\<bar> / 2 ^ 53 + 1 / 2 ^ 1075"
    by simp_all
  from fdiv_finite [OF f1 c0] have fd: "is_finite ?d"
    and e2: "\<bar>fval ?q1 - fval ?d / c\<bar> \<le> \<bar>fval ?d / c\<bar> / 2 ^ 53 + 1 / 2 ^ 1075"
    by simp_all
  have vc: "fval (Fin c) = c" by (simp add: fval_def)
  from fsub_finite [OF fd] have fP: "is_finite P"
    and e1: "\<bar>fval ?d - (fval P - c)\<bar> \<le> \<bar>fval P - c\<bar> / 2 ^ 53 + 1 / 2 ^ 1075"
    by (simp_all only: vc)
  have eta0: "(0::rat) \<le> 1 / 2 ^ 1075" by simp
  from pct_error_arith [OF c0 eta0 e1 e2 e3]
  have b: "\<bar>c * (fval ?q / 100) - (fval P - c)\<bar>
            \<le> \<bar>fval P - c\<bar> / 2 ^ 51 + 4 * ((1 + \<bar>c\<bar>) * (1 / 2 ^ 1075))" .
  have p: "(2::rat) ^ 1075 = 4 * 2 ^ 1073"
  proof -
    have "(2::rat) ^ 1075 = 2 ^ (2 + 1073)" by simp
    also have "\<dots> = 2 ^ 2 * 2 ^ 1073" by (rule power_add)
    finally show ?thesis by simp
  qed
  have r: "4 * ((1 + \<bar>c\<bar>) * (1 / 2 ^ 1075)) = (1 + \<bar>c\<bar>) / 2 ^ 1073"
    unfolding p by simp
  have l: "c * (1 + fval ?q / 100) - fval P = c * (fval ?q / 100) - (fval P - c)"
    by (simp add: algebra_simps)
  show ?thesis using fP b unfolding q l r by simp
qed



lemma predict_body_pct:
  assumes "predict_body e m h f = Inr data"
  shows "\<exists>c. current_hpi data = Fin c
             \<and> percentage_change data = pct_change (predicted_hpi data) (Fin c)"
proof -
  have a: "\<exists>c. current_hpi d = Fin c
             \<and> percentage_change d = pct_change (predicted_hpi d) (Fin c)"
    if "predict_body e m h False = Inr d" for d
    using that unfolding predict_body_def Let_def
    by (auto split: sum.splits cell.splits)
  show ?thesis
  proof (cases f)
    case False
    then show ?thesis using assms a by simp
  next
    case True
    with assms obtain d hist where d: "predict_body e m h False = Inr d"
      and e: "data = d\<lparr>historical := Some hist\<rparr>"
      by (auto simp: predict_body_True split: sum.splits)
    from a [OF d] show ?thesis by (simp add: e)
  qed
qed

lemma do_GET_success:
  assumes "fst (do_GET e M params) = \<lparr>status = s, body = Success data\<rparr>"
  shows "s = 200 \<and> (\<exists>m h. predict_body e m h (get_include_historical params) = Inr data)"
  using assms
  by (auto simp: do_GET_response handle_exception_def error_response_def
      split: sum.splits if_splits option.splits)

lemma pct_change_sample:
  "pct_change (Fin (321 / 2)) (Fin 150) = Fin (7 + 1 / 2 ^ 50)"
  by code_simp

lemma round_double_overflow:
  assumes "overflow_threshold \<le> x"
  shows "round_double x = PInf"
proof -
  have x0: "0 < x" using assms by (simp add: overflow_threshold_def less_le_trans [OF _ assms])
  let ?e = "exponent2 x"
  have b: "2 powi ?e \<le> x" "x < 2 powi (?e + 1)" using exponent2_bounds [OF x0] by simp_all
  have e: "1024 \<le> ?e"
  proof (rule ccontr)
    assume "\<not> 1024 \<le> ?e"
    then have "?e + 1 \<le> 1024" by simp
    then have "(2::rat) powi (?e + 1) \<le> 2 powi 1024"
      by (intro power_int_increasing) simp_all
    then have "x < 2 ^ 1024" using b(2) by simp
    then show False using assms by (simp add: overflow_threshold_def)
  qed
  have u: "ulp x = 2 powi (?e - 52)" using e by (simp add: ulp_def max_def)
  have m: "(2::rat) powi 52 * ulp x = 2 powi ?e"
  proof -
    have "(2::rat) powi (52 + (?e - 52)) = 2 powi 52 * 2 powi (?e - 52)"
      by (rule power_int_add) simp
    moreover have "52 + (?e - 52) = ?e" by simp
    ultimately show ?thesis by (simp only: u)
  qed
  have n52: "(2::rat) powi 52 = of_int (2 ^ 52)" by simp
  have "of_int (2 ^ 52) * ulp x \<le> x" using b(1) by (simp only: m n52 [symmetric])
  then have "of_int (2 ^ 52) \<le> x / ulp x" using ulp_pos [of x] by (simp only: pos_le_divide_eq)
  then have "2 ^ 52 \<le> round_half_even (x / ulp x)" by (rule round_half_even_ge)
  then have "(of_int (2 ^ 52) :: rat) \<le> of_int (round_half_even (x / ulp x))"
    by (simp only: of_int_le_iff)
  then have "of_int (2 ^ 52) * ulp x \<le> round_mag x"
    unfolding round_mag_def using ulp_pos [of x] by (intro mult_right_mono) simp_all
  then have "2 powi ?e \<le> round_mag x" by (simp only: m n52 [symmetric])
  moreover have "(2::rat) powi 1024 \<le> 2 powi ?e"
    using e by (intro power_int_increasing) simp_all
  ultimately have "overflow_threshold \<le> round_mag x"
    by (simp add: overflow_threshold_def)
  then show ?thesis using x0 by (simp add: round_double_def)
qed

lemma pct_change_overflow_gen:
  assumes c: "0 < c" "c \<le> 1 / 2" and o: "overflow_threshold * c \<le> 160"
  shows "pct_change (Fin (321 / 2)) (Fin c) = PInf"
proof -
  let ?a = "321 / 2 - c"
  have a0: "0 < ?a" using c by linarith
  have a1: "?a < 2 ^ 50" using c by simp
  have lo: "of_int 1280 / 8 \<le> ?a" using c by simp
  have hi: "?a \<le> of_int 1284 / 8" using c by simp
  have i0: "(0::int) \<le> 1280" by simp
  from round_double_small [OF a0 a1 lo hi i0] obtain y where
    y: "round_double ?a = Fin y" and yl: "160 \<le> y" by auto
  have cn: "c \<noteq> 0" using c by simp
  have sub: "fsub (Fin (321 / 2)) (Fin c) = Fin y"
    using y cn by (simp add: fsub_def is_inf_def is_zero_def fval_def)
  have "overflow_threshold * c \<le> y" using o yl by linarith
  then have "overflow_threshold \<le> y / c" using c(1) by (simp add: pos_le_divide_eq)
  then have "round_double (y / c) = PInf" by (rule round_double_overflow)
  then have dv: "fdiv (Fin y) (Fin c) = PInf"
    using yl cn by (simp add: fdiv_def is_inf_def is_zero_def fval_def)
  show ?thesis
    by (simp add: pct_change_def sub dv fmul_def is_inf_def is_zero_def signed_inf_def
        signbit_def)
qed

lemma pct_change_overflow: "pct_change (Fin (321 / 2)) (Fin (1 / 2 ^ 1020)) = PInf"
proof (rule pct_change_overflow_gen)
  show "(0::rat) < 1 / 2 ^ 1020" by simp
  have "(2::rat) ^ 1 \<le> 2 ^ 1020" by (rule power_increasing) simp_all
  then show "(1::rat) / 2 ^ 1020 \<le> 1 / 2" by (simp add: field_simps del: power_increasing_iff)
  have "(2::rat) ^ 1024 = 2 ^ (4 + 1020)" by simp
  also have "\<dots> = 2 ^ 4 * 2 ^ 1020" by (rule power_add)
  finally have "overflow_threshold * (1 / 2 ^ 1020) = 16"
    by (simp add: overflow_threshold_def)
  then show "overflow_threshold * (1 / 2 ^ 1020) \<le> 160" by simp
qed

text \<open>
  C5, as amended. \<open>pct_change = ((prediction - current_hpi) / current_hpi) * 100\<close> is three
  rounded binary64 operations. For every successful answer whose current value \<open>c\<close> is not
  zero and whose \<open>percentage_change\<close> is finite, the prediction is finite and
  \<open>c * (1 + percentage_change / 100)\<close> differs from it by at most
  \<open>|predicted - c| / 2^51 + (1 + |c|) / 2^1073\<close>: a relative error of \<open>2^-51\<close> of the change,
  plus an absolute term for results in the subnormal range. The current value 150.0 with
  the prediction 160.5 gives \<open>7 + 2^-50\<close>, the double next above 7.0 (printed
  \<open>7.000000000000001\<close>).
\<close>

theorem percentage_change_relation:
  assumes "fst (do_GET e M params) = \<lparr>status = s, body = Success data\<rparr>"
      and "current_hpi data = Fin c" "c \<noteq> 0"
      and "is_finite (percentage_change data)"
  shows "is_finite (predicted_hpi data)
         \<and> \<bar>c * (1 + fval (percentage_change data) / 100) - fval (predicted_hpi data)\<bar>
             \<le> \<bar>fval (predicted_hpi data) - c\<bar> / 2 ^ 51 + (1 + \<bar>c\<bar>) / 2 ^ 1073
         \<and> pct_change (Fin (321 / 2)) (Fin 150) = Fin (7 + 1 / 2 ^ 50)"
proof -
  from do_GET_success [OF assms(1)] obtain m h where
    "predict_body e m h (get_include_historical params) = Inr data" by blast
  from predict_body_pct [OF this] assms(2)
  have p: "percentage_change data = pct_change (predicted_hpi data) (Fin c)" by auto
  from assms(4) have "is_finite (pct_change (predicted_hpi data) (Fin c))" by (simp only: p)
  from pct_change_error [OF this assms(3)] show ?thesis by (simp only: p pct_change_sample simp_thms)
qed

text \<open>
  A successful answer with a nonzero current value need not carry a finite
  \<open>percentage_change\<close>: with current value \<open>2^-1020\<close> and prediction 160.5 the quotient
  overflows, the answer is 200 with \<open>percentage_change = +inf\<close>, and the relation fails.
\<close>

theorem percentage_change_overflow_counterexample:
  "fst (do_GET tiny_value_env [] []) =
     \<lparr>status = 200,
       body = Success \<lparr>horizon_months = 1, current_hpi = Fin (1 / 2 ^ 1020),
                       predicted_hpi = Fin (321 / 2), percentage_change = PInf,
                       ref_date = Str ''2024-06'', historical = None\<rparr>\<rparr>
   \<and> (1 / 2 ^ 1020 :: rat) \<noteq> 0"
proof -
  let ?row = "[(''ref_date'', Str ''2024-06''),
               (''housing_price_index_value'', Num (1 / 2 ^ 1020)),
               (''unemployment_rate'', Num 6)]"
  have t: "table tiny_value_env = ?row # []" by (simp add: tiny_value_env_def)
  have c: "credentials tiny_value_env" by (simp add: tiny_value_env_def sample_env_def)
  have v: "map_of ?row ''housing_price_index_value'' = Some (Num (1 / 2 ^ 1020))" by simp
  have d: "map_of ?row ''ref_date'' = Some (Str ''2024-06'')" by simp
  have h: "get_horizon [] = Inr 1" by (simp add: get_horizon_def)
  have i: "(1::int) \<in> set HORIZONS" by (simp add: HORIZONS_def)
  have m: "map_of (fst (load_models tiny_value_env [])) 1 = Some sample_regressor"
    by (simp add: load_models_def HORIZONS_def tiny_value_env_def sample_env_def)
  have p: "sample_regressor (latest_features (frame_of_rows [?row])) = Inr (Fin (321 / 2))"
    by (simp add: sample_regressor_def)
  have f: "\<not> get_include_historical []"
    by (simp add: get_include_historical_def py_lower_def lower_char_def)
  have "predict_body tiny_value_env sample_regressor 1 False =
          Inr \<lparr>horizon_months = 1, current_hpi = Fin (1 / 2 ^ 1020),
               predicted_hpi = Fin (321 / 2),
               percentage_change = pct_change (Fin (321 / 2)) (Fin (1 / 2 ^ 1020)),
               ref_date = Str ''2024-06'', historical = None\<rparr>"
    by (rule predict_body_value [where m = sample_regressor, OF t c v d p])
  then have "predict_body tiny_value_env sample_regressor 1 False =
          Inr \<lparr>horizon_months = 1, current_hpi = Fin (1 / 2 ^ 1020),
               predicted_hpi = Fin (321 / 2), percentage_change = PInf,
               ref_date = Str ''2024-06'', historical = None\<rparr>"
    by (simp only: pct_change_overflow)
  then show ?thesis using h i m f
    by (simp add: do_GET_response)
qed

theorem percentage_change_relation_witness:
  "fst (do_GET sample_env [] []) =
     \<lparr>status = 200,
       body = Success \<lparr>horizon_months = 1, current_hpi = Fin 150,
                       predicted_hpi = Fin (321 / 2), percentage_change = Fin (7 + 1 / 2 ^ 50),
                       ref_date = Str ''2024-06'', historical = None\<rparr>\<rparr>
   \<and> (150::rat) \<noteq> 0 \<and> is_finite (Fin (7 + 1 / 2 ^ 50))
   \<and> \<bar>150 * (1 + fval (Fin (7 + 1 / 2 ^ 50)) / 100) - fval (Fin (321 / 2))\<bar>
       \<le> \<bar>fval (Fin (321 / 2)) - 150\<bar> / 2 ^ 51 + (1 + \<bar>150::rat\<bar>) / 2 ^ 1073"
proof -
  let ?row = "[(''ref_date'', Str ''2024-06''), (''housing_price_index_value'', Num 150),
               (''unemployment_rate'', Num 6), (''note'', Str ''x'')]"
  let ?rest = "[[(''ref_date'', Str ''2024-05''), (''housing_price_index_value'', Num 149),
                (''unemployment_rate'', Num 7), (''note'', Str ''y'')]]"
  define data where "data = \<lparr>horizon_months = 1, current_hpi = Fin 150,
                       predicted_hpi = Fin (321 / 2), percentage_change = Fin (7 + 1 / 2 ^ 50),
                       ref_date = Str ''2024-06'', historical = None\<rparr>"
  have t: "table sample_env = ?row # ?rest" by (simp add: sample_env_def)
  have c: "credentials sample_env" by (simp add: sample_env_def)
  have v: "map_of ?row ''housing_price_index_value'' = Some (Num 150)" by simp
  have d: "map_of ?row ''ref_date'' = Some (Str ''2024-06'')" by simp
  have h: "get_horizon [] = Inr 1" by (simp add: get_horizon_def)
  have i: "(1::int) \<in> set HORIZONS" by (simp add: HORIZONS_def)
  have m: "map_of (fst (load_models sample_env [])) 1 = Some sample_regressor"
    by (simp add: load_models_def HORIZONS_def sample_env_def)
  have p: "sample_regressor (latest_features (frame_of_rows [?row])) = Inr (Fin (321 / 2))"
    by (simp add: sample_regressor_def)
  have f: "\<not> get_include_historical []" by (simp add: include_historical_iff)
  have "predict_body sample_env sample_regressor 1 False =
          Inr \<lparr>horizon_months = 1, current_hpi = Fin 150,
               predicted_hpi = Fin (321 / 2),
               percentage_change = pct_change (Fin (321 / 2)) (Fin 150),
               ref_date = Str ''2024-06'', historical = None\<rparr>"
    by (rule predict_body_value [where m = sample_regressor, OF t c v d p])
  then have "predict_body sample_env sample_regressor 1 False = Inr data"
    by (simp only: pct_change_sample data_def)
  then have r: "fst (do_GET sample_env [] []) = \<lparr>status = 200, body = Success data\<rparr>"
    using h i m f by (simp add: do_GET_response)
  have c1: "current_hpi data = Fin 150" by (simp add: data_def)
  have c2: "(150::rat) \<noteq> 0" by simp
  have c3: "is_finite (percentage_change data)" by (simp add: data_def is_finite_def)
  have s1: "percentage_change data = Fin (7 + 1 / 2 ^ 50)" by (simp add: data_def)
  have s2: "predicted_hpi data = Fin (321 / 2)" by (simp add: data_def)
  from percentage_change_relation [OF r c1 c2 c3]
  have b: "\<bar>150 * (1 + fval (Fin (7 + 1 / 2 ^ 50)) / 100) - fval (Fin (321 / 2))\<bar>
       \<le> \<bar>fval (Fin (321 / 2)) - 150\<bar> / 2 ^ 51 + (1 + \<bar>150::rat\<bar>) / 2 ^ 1073"
    by (simp only: s1 s2)
  have fi: "is_finite (Fin (7 + 1 / 2 ^ 50))" by (simp add: is_finite_def)
  show ?thesis using r [unfolded data_def] c2 fi b by (intro conjI)
qed

end
